theory Spec2Isabelle
  imports Main
begin

section \<open>Python values, exceptions and string conversions\<close>

text \<open>
  The program is a single Python file, \<^verbatim>\<open>TransEaseFTP.py\<close>. Python strings are modelled as
  \<^typ>\<open>string\<close> (a list of 8-bit characters), Python integers as \<^typ>\<open>int\<close>. A value of
  type \<^verbatim>\<open>Any\<close> is one of the four kinds of value the program stores in or reads from its
  configuration.
\<close>

datatype pyval = PInt int | PBool bool | PStr string | PNone

text \<open>
  The exceptions that the modelled code and library calls raise. A function that can raise
  returns \<open>py_exc + 'a\<close>, with \<open>Inl\<close> for the exception.
\<close>

datatype py_exc =
    NoSectionError | NoOptionError | DuplicateSectionError | InterpolationError | ParsingError
  | ValueError | TypeError | AttributeError | OSError | LookupError
  | UnicodeDecodeError | UnicodeEncodeError

subsection \<open>\<^verbatim>\<open>str(value)\<close>\<close>

definition digit_char :: "nat \<Rightarrow> char" where
  "digit_char d = ''0123456789'' ! (d mod 10)"

fun str_nat :: "nat \<Rightarrow> string" where
  "str_nat n = (if n < 10 then [digit_char n] else str_nat (n div 10) @ [digit_char (n mod 10)])"

declare str_nat.simps [simp del]

definition str_int :: "int \<Rightarrow> string" where
  "str_int i = (if i < 0 then CHR ''-'' # str_nat (nat (- i)) else str_nat (nat i))"

text \<open>\<^verbatim>\<open>str(value)\<close> for the four kinds of value.\<close>

fun py_str :: "pyval \<Rightarrow> string" where
  "py_str (PInt i) = str_int i"
| "py_str (PBool b) = (if b then ''True'' else ''False'')"
| "py_str (PStr s) = s"
| "py_str PNone = ''None''"

subsection \<open>\<^verbatim>\<open>str.lower()\<close>, \<^verbatim>\<open>str.strip()\<close>, \<^verbatim>\<open>int(text)\<close>\<close>

text \<open>Lower-casing acts on the ASCII letters; other characters are kept.\<close>

definition lower_char :: "char \<Rightarrow> char" where
  "lower_char c =
     (case map_of (zip ''ABCDEFGHIJKLMNOPQRSTUVWXYZ'' ''abcdefghijklmnopqrstuvwxyz'') c of
        Some d \<Rightarrow> d
      | None \<Rightarrow> c)"

definition lower :: "string \<Rightarrow> string" where
  "lower s = map lower_char s"

text \<open>The ASCII characters Python treats as white space: TAB, LF, VT, FF, CR, FS, GS, RS, US, SP.\<close>

definition is_space :: "char \<Rightarrow> bool" where
  "is_space c = (of_char c \<in> {9::nat, 10, 11, 12, 13, 28, 29, 30, 31, 32})"

definition strip :: "string \<Rightarrow> string" where
  "strip s = rev (dropWhile is_space (rev (dropWhile is_space s)))"

definition digit_val :: "char \<Rightarrow> nat option" where
  "digit_val c = map_of (zip ''0123456789'' [0, 1, 2, 3, 4, 5, 6, 7, 8, 9]) c"

text \<open>
  The digits of a decimal literal: a digit, then digits each optionally preceded by one
  underscore. \<open>None\<close> is the \<^verbatim>\<open>ValueError\<close> of \<^verbatim>\<open>int()\<close>. The interpreter's optional
  limit on the number of digits of a conversion is left out.
\<close>

fun digits_value :: "nat \<Rightarrow> string \<Rightarrow> nat option" where
  "digits_value acc [] = None"
| "digits_value acc (c # cs) =
     (case digit_val c of
        None \<Rightarrow> None
      | Some d \<Rightarrow>
          (case cs of
             [] \<Rightarrow> Some (10 * acc + d)
           | c' # cs' \<Rightarrow>
               if c' = CHR ''_'' then digits_value (10 * acc + d) cs'
               else digits_value (10 * acc + d) cs))"

definition py_int :: "string \<Rightarrow> int option" where
  "py_int s =
     (case strip s of
        [] \<Rightarrow> None
      | c # cs \<Rightarrow>
          if c = CHR ''-'' then map_option (\<lambda>n. - int n) (digits_value 0 cs)
          else if c = CHR ''+'' then map_option int (digits_value 0 cs)
          else map_option int (digits_value 0 (c # cs)))"

section \<open>The \<^verbatim>\<open>configparser.ConfigParser\<close> object\<close>

text \<open>
  The state of a parser: the options of the special section \<^verbatim>\<open>DEFAULT\<close> and the options
  of every other section. Option names are stored lower-cased (\<^verbatim>\<open>optionxform\<close>), values are
  strings.
\<close>

record cfg =
  defaults :: "string \<rightharpoonup> string"
  sections :: "string \<rightharpoonup> (string \<rightharpoonup> string)"

definition ConfigParser :: cfg where
  "ConfigParser = \<lparr>defaults = Map.empty, sections = Map.empty\<rparr>"

definition default_section :: string where
  "default_section = ''DEFAULT''"

definition optionxform :: "string \<Rightarrow> string" where
  "optionxform optionstr = lower optionstr"

definition has_section :: "cfg \<Rightarrow> string \<Rightarrow> bool" where
  "has_section c section = (sections c section \<noteq> None)"

definition add_section :: "cfg \<Rightarrow> string \<Rightarrow> py_exc + cfg" where
  "add_section c section =
     (if section = default_section then Inl ValueError
      else if sections c section \<noteq> None then Inl DuplicateSectionError
      else Inr (c\<lparr>sections := (sections c)(section \<mapsto> Map.empty)\<rparr>))"

definition has_option :: "cfg \<Rightarrow> string \<Rightarrow> string \<Rightarrow> bool" where
  "has_option c section option =
     (if section = [] \<or> section = default_section then defaults c (optionxform option) \<noteq> None
      else case sections c section of
             None \<Rightarrow> False
           | Some sectdict \<Rightarrow>
               sectdict (optionxform option) \<noteq> None \<or> defaults c (optionxform option) \<noteq> None)"

subsection \<open>Interpolation (\<^verbatim>\<open>BasicInterpolation\<close>)\<close>

text \<open>\<^verbatim>\<open>value.replace('%%', '')\<close>.\<close>

fun remove_escaped :: "string \<Rightarrow> string" where
  "remove_escaped (a # b # cs) =
     (if a = CHR ''%'' \<and> b = CHR ''%'' then remove_escaped cs else a # remove_escaped (b # cs))"
| "remove_escaped cs = cs"

text \<open>
  \<^verbatim>\<open>_KEYCRE.match(rest)\<close> for the pattern \<^verbatim>\<open>%\(([^)]+)\)s\<close>: the name between the
  parentheses and the text after the match.
\<close>

definition key_match :: "string \<Rightarrow> (string \<times> string) option" where
  "key_match rest =
     (case rest of
        a # b # cs \<Rightarrow>
          if a = CHR ''%'' \<and> b = CHR ''('' then
            (let name = takeWhile (\<lambda>c. c \<noteq> CHR '')'') cs;
                 after = dropWhile (\<lambda>c. c \<noteq> CHR '')'') cs
             in if name \<noteq> [] \<and> take 2 after = '')s'' then Some (name, drop 2 after) else None)
          else None
      | _ \<Rightarrow> None)"

lemma key_match_shorter:
  assumes "key_match rest = Some (name, after)"
  shows "length after < length rest"
proof -
  obtain a b cs where rest: "rest = a # b # cs"
    using assms by (auto simp: key_match_def split: list.splits)
  have after: "after = drop 2 (dropWhile (\<lambda>c. c \<noteq> CHR '')'') cs)"
    using assms unfolding rest key_match_def Let_def
    by (simp split: if_splits)
  have "length (dropWhile (\<lambda>c. c \<noteq> CHR '')'') cs) \<le> length cs"
    by (rule length_dropWhile_le)
  then show ?thesis
    unfolding after rest by simp
qed

text \<open>\<^verbatim>\<open>_KEYCRE.sub('', value)\<close>: every match, from left to right, is removed.\<close>

function remove_keys :: "string \<Rightarrow> string" where
  "remove_keys [] = []"
| "remove_keys (c # cs) =
     (case key_match (c # cs) of
        Some (name, after) \<Rightarrow> remove_keys after
      | None \<Rightarrow> c # remove_keys cs)"
  by pat_completeness auto
termination
proof (relation "measure length")
  show "wf (measure length)" by simp
next
  fix c cs x2 name after
  assume "key_match (c # cs) = Some x2" "(name, after) = x2"
  then show "(after, c # cs) \<in> measure length"
    using key_match_shorter [of "c # cs" name after] by simp
next
  fix c :: char and cs :: string
  show "(cs, c # cs) \<in> measure length" by simp
qed

text \<open>\<^verbatim>\<open>before_set\<close>: \<open>False\<close> is the \<^verbatim>\<open>ValueError\<close> for invalid interpolation syntax.\<close>

definition before_set :: "string \<Rightarrow> bool" where
  "before_set v = (CHR ''%'' \<notin> set (remove_keys (remove_escaped v)))"

definition MAX_INTERPOLATION_DEPTH :: nat where
  "MAX_INTERPOLATION_DEPTH = 10"

text \<open>
  \<^verbatim>\<open>_interpolate_some\<close>: the text accumulated for \<open>rest\<close> at the given depth. The three
  interpolation errors (syntax, missing option, depth) are all \<open>InterpolationError\<close>.
\<close>

function interpolate_some :: "nat \<Rightarrow> (string \<rightharpoonup> string) \<Rightarrow> string \<Rightarrow> py_exc + string" where
  "interpolate_some depth m rest =
     (if depth > MAX_INTERPOLATION_DEPTH then Inl InterpolationError
      else case rest of
        [] \<Rightarrow> Inr []
      | c # cs \<Rightarrow>
          if c \<noteq> CHR ''%'' then
            (case interpolate_some depth m cs of Inl e \<Rightarrow> Inl e | Inr acc \<Rightarrow> Inr (c # acc))
          else if take 1 cs = ''%'' then
            (case interpolate_some depth m (drop 1 cs) of
               Inl e \<Rightarrow> Inl e
             | Inr acc \<Rightarrow> Inr (CHR ''%'' # acc))
          else if take 1 cs = ''('' then
            (case key_match rest of
               None \<Rightarrow> Inl InterpolationError
             | Some (name, after) \<Rightarrow>
                 (case m (optionxform name) of
                    None \<Rightarrow> Inl InterpolationError
                  | Some v \<Rightarrow>
                      (case (if CHR ''%'' \<in> set v then interpolate_some (depth + 1) m v
                             else Inr v) of
                         Inl e \<Rightarrow> Inl e
                       | Inr acc \<Rightarrow>
                           (case interpolate_some depth m after of
                              Inl e \<Rightarrow> Inl e
                            | Inr acc' \<Rightarrow> Inr (acc @ acc')))))
          else Inl InterpolationError)"
  by pat_completeness auto
termination
proof (relation "measures [\<lambda>(depth, m, rest). Suc MAX_INTERPOLATION_DEPTH - depth,
                          \<lambda>(depth, m, rest). length rest]", goal_cases)
  case 1
  show ?case by simp
next
  case (2 depth m rest c cs)
  then show ?case by simp
next
  case (3 depth m rest c cs)
  then show ?case by simp
next
  case (4 depth m rest c cs x2 name after v)
  then show ?case by (simp add: MAX_INTERPOLATION_DEPTH_def; arith)
next
  case (5 depth m rest c cs x2 name after v acc)
  then show ?case
    using key_match_shorter [of rest name after] by simp
qed

declare interpolate_some.simps [simp del]

definition before_get :: "(string \<rightharpoonup> string) \<Rightarrow> string \<Rightarrow> py_exc + string" where
  "before_get d v = interpolate_some 1 d v"

subsection \<open>\<^verbatim>\<open>set\<close>, \<^verbatim>\<open>get\<close>, \<^verbatim>\<open>getint\<close>, \<^verbatim>\<open>getboolean\<close>\<close>

text \<open>\<^verbatim>\<open>ConfigParser.set(section, option, value)\<close> with a string value.\<close>

definition cp_set :: "cfg \<Rightarrow> string \<Rightarrow> string \<Rightarrow> string \<Rightarrow> py_exc + cfg" where
  "cp_set c section option v =
     (if v \<noteq> [] \<and> \<not> before_set v then Inl ValueError
      else if section = [] \<or> section = default_section then
        Inr (c\<lparr>defaults := (defaults c)(optionxform option \<mapsto> v)\<rparr>)
      else case sections c section of
             None \<Rightarrow> Inl NoSectionError
           | Some sectdict \<Rightarrow>
               Inr (c\<lparr>sections := (sections c)(section \<mapsto> sectdict(optionxform option \<mapsto> v))\<rparr>))"

text \<open>\<^verbatim>\<open>_unify_values\<close>: the section's options take priority over those of \<^verbatim>\<open>DEFAULT\<close>.\<close>

definition unify_values :: "cfg \<Rightarrow> string \<Rightarrow> py_exc + (string \<rightharpoonup> string)" where
  "unify_values c section =
     (case sections c section of
        Some sectiondict \<Rightarrow> Inr (defaults c ++ sectiondict)
      | None \<Rightarrow> if section \<noteq> default_section then Inl NoSectionError else Inr (defaults c))"

definition cp_get :: "cfg \<Rightarrow> string \<Rightarrow> string \<Rightarrow> py_exc + string" where
  "cp_get c section option =
     (case unify_values c section of
        Inl e \<Rightarrow> Inl e
      | Inr d \<Rightarrow>
          (case d (optionxform option) of
             None \<Rightarrow> Inl NoOptionError
           | Some v \<Rightarrow> before_get d v))"

definition getint :: "cfg \<Rightarrow> string \<Rightarrow> string \<Rightarrow> py_exc + int" where
  "getint c section option =
     (case cp_get c section option of
        Inl e \<Rightarrow> Inl e
      | Inr v \<Rightarrow> (case py_int v of None \<Rightarrow> Inl ValueError | Some i \<Rightarrow> Inr i))"

definition BOOLEAN_STATES :: "(string \<times> bool) list" where
  "BOOLEAN_STATES =
     [(''1'', True), (''yes'', True), (''true'', True), (''on'', True),
      (''0'', False), (''no'', False), (''false'', False), (''off'', False)]"

definition getboolean :: "cfg \<Rightarrow> string \<Rightarrow> string \<Rightarrow> py_exc + bool" where
  "getboolean c section option =
     (case cp_get c section option of
        Inl e \<Rightarrow> Inl e
      | Inr v \<Rightarrow> (case map_of BOOLEAN_STATES (lower v) of None \<Rightarrow> Inl ValueError | Some b \<Rightarrow> Inr b))"

text \<open>
  \<^verbatim>\<open>read\<close> of a parsed file into a parser: the file's options are added to the sections
  that exist and replace options of the same name.
\<close>

definition read_merge :: "cfg \<Rightarrow> cfg \<Rightarrow> cfg" where
  "read_merge c parsed =
     \<lparr>defaults = defaults c ++ defaults parsed,
      sections = (\<lambda>s. case sections parsed s of
                         None \<Rightarrow> sections c s
                       | Some opts \<Rightarrow>
                           Some ((case sections c s of None \<Rightarrow> Map.empty | Some old \<Rightarrow> old) ++ opts))\<rparr>"

section \<open>The operating system\<close>

text \<open>
  What \<^verbatim>\<open>ConfigParser.read\<close> finds in a file: the options of a well-formed file, a file it
  cannot parse (it raises), or a file it cannot open (it skips the file silently).
\<close>

datatype file_content = IniFile cfg | Malformed | Unreadable

text \<open>
  The part of the operating system the program touches. \<open>abspath\<close> is
  \<^verbatim>\<open>os.path.abspath\<close> and \<open>cwd\<close> is \<^verbatim>\<open>os.getcwd()\<close>; \<open>dirs\<close> are the directories that
  exist, \<open>creatable\<close> tells whether \<^verbatim>\<open>os.makedirs\<close> succeeds on a path that is not a
  directory yet, \<open>writable\<close> whether \<^verbatim>\<open>open(path, 'w')\<close> succeeds. \<open>reread\<close> is what
  \<^verbatim>\<open>ConfigParser.read\<close> gets back from the text that \<^verbatim>\<open>ConfigParser.write\<close> produces for a
  parser state (the file format itself is not modelled).
\<close>

record os_state =
  cwd :: string
  abspath :: "string \<Rightarrow> string"
  dirs :: "string set"
  creatable :: "string \<Rightarrow> bool"
  files :: "string \<rightharpoonup> file_content"
  writable :: "string \<Rightarrow> bool"
  reread :: "cfg \<Rightarrow> file_content"

definition isdir :: "os_state \<Rightarrow> string \<Rightarrow> bool" where
  "isdir os p = (p \<in> dirs os)"

definition path_exists :: "os_state \<Rightarrow> string \<Rightarrow> bool" where
  "path_exists os p = (files os p \<noteq> None \<or> p \<in> dirs os)"

text \<open>\<^verbatim>\<open>os.makedirs(p, exist_ok=True)\<close>.\<close>

definition makedirs :: "os_state \<Rightarrow> string \<Rightarrow> py_exc + os_state" where
  "makedirs os p =
     (if p \<in> dirs os then Inr os
      else if creatable os p then Inr (os\<lparr>dirs := insert p (dirs os)\<rparr>)
      else Inl OSError)"

text \<open>\<^verbatim>\<open>with open(path, 'w', encoding='utf-8') as f: config.write(f)\<close>.\<close>

definition write_config :: "os_state \<Rightarrow> string \<Rightarrow> cfg \<Rightarrow> py_exc + os_state" where
  "write_config os path c =
     (if writable os path then Inr (os\<lparr>files := (files os)(path \<mapsto> reread os c)\<rparr>)
      else Inl OSError)"

text \<open>\<^verbatim>\<open>config.read(path, encoding='utf-8')\<close>.\<close>

definition read_config :: "os_state \<Rightarrow> string \<Rightarrow> cfg \<Rightarrow> py_exc + cfg" where
  "read_config os path c =
     (case files os path of
        None \<Rightarrow> Inr c
      | Some Unreadable \<Rightarrow> Inr c
      | Some Malformed \<Rightarrow> Inl ParsingError
      | Some (IniFile parsed) \<Rightarrow> Inr (read_merge c parsed))"

section \<open>\<^verbatim>\<open>FTPConfigManager\<close>\<close>

record cfgmgr =
  config_path :: string
  config :: cfg

text \<open>
  The class attribute \<^verbatim>\<open>DEFAULT_CONFIG\<close>: an ordered dictionary of sections, each an ordered
  dictionary of options.
\<close>

definition DEFAULT_CONFIG :: "os_state \<Rightarrow> (string \<times> (string \<times> string) list) list" where
  "DEFAULT_CONFIG os =
     [(''general'',
       [(''port'', ''21''),
        (''root_path'', abspath os (cwd os)),
        (''max_connections'', ''50''),
        (''timeout'', ''300''),
        (''encoding'', ''gb18030''),
        (''log_level'', ''INFO''),
        (''save_log'', ''False'')])]"

text \<open>\<^verbatim>\<open>self.DEFAULT_CONFIG.get(section, {}).get(key)\<close>.\<close>

definition default_value :: "os_state \<Rightarrow> string \<Rightarrow> string \<Rightarrow> pyval" where
  "default_value os section key =
     (case map_of (DEFAULT_CONFIG os) section of
        None \<Rightarrow> PNone
      | Some options \<Rightarrow> (case map_of options key of None \<Rightarrow> PNone | Some v \<Rightarrow> PStr v))"

text \<open>
  \<^verbatim>\<open>FTPConfigManager.get\<close>. The \<^verbatim>\<open>except\<close> clause catches \<^verbatim>\<open>NoOptionError\<close>,
  \<^verbatim>\<open>NoSectionError\<close> and \<^verbatim>\<open>ValueError\<close>; any other exception leaves the method.
\<close>

definition typed_lookup :: "cfg \<Rightarrow> string \<Rightarrow> string \<Rightarrow> py_exc + pyval" where
  "typed_lookup c section key =
     (if section = ''general'' \<and> key = ''port'' then map_sum id PInt (getint c section key)
      else if section = ''general'' \<and> key \<in> set [''max_connections'', ''timeout'']
        then map_sum id PInt (getint c section key)
      else if section = ''general'' \<and> key = ''save_log''
        then map_sum id PBool (getboolean c section key)
      else map_sum id PStr (cp_get c section key))"

definition FTPConfigManager_get :: "os_state \<Rightarrow> cfgmgr \<Rightarrow> string \<Rightarrow> string \<Rightarrow> py_exc + pyval" where
  "FTPConfigManager_get os cm section key =
     (case typed_lookup (config cm) section key of
        Inr v \<Rightarrow> Inr v
      | Inl e \<Rightarrow>
          if e \<in> set [NoOptionError, NoSectionError, ValueError]
          then Inr (default_value os section key)
          else Inl e)"

text \<open>\<^verbatim>\<open>create_default_config\<close>: the two nested loops, then the file is written.\<close>

fun set_options :: "cfg \<Rightarrow> string \<Rightarrow> (string \<times> string) list \<Rightarrow> py_exc + cfg" where
  "set_options c section [] = Inr c"
| "set_options c section ((key, v) # options) =
     (case cp_set c section key v of
        Inl e \<Rightarrow> Inl e
      | Inr c' \<Rightarrow> set_options c' section options)"

fun create_sections :: "cfg \<Rightarrow> (string \<times> (string \<times> string) list) list \<Rightarrow> py_exc + cfg" where
  "create_sections c [] = Inr c"
| "create_sections c ((section, options) # rest) =
     (case add_section c section of
        Inl e \<Rightarrow> Inl e
      | Inr c1 \<Rightarrow>
          (case set_options c1 section options of
             Inl e \<Rightarrow> Inl e
           | Inr c2 \<Rightarrow> create_sections c2 rest))"

definition create_default_config :: "os_state \<Rightarrow> cfgmgr \<Rightarrow> py_exc + cfgmgr \<times> os_state" where
  "create_default_config os cm =
     (case create_sections (config cm) (DEFAULT_CONFIG os) of
        Inl e \<Rightarrow> Inl e
      | Inr c \<Rightarrow>
          (case write_config os (config_path cm) c of
             Inl e \<Rightarrow> Inl e
           | Inr os' \<Rightarrow> Inr (cm\<lparr>config := c\<rparr>, os')))"

text \<open>The loops of \<^verbatim>\<open>load_config\<close> that add the options the file does not have.\<close>

fun ensure_options :: "cfg \<Rightarrow> string \<Rightarrow> (string \<times> string) list \<Rightarrow> py_exc + cfg" where
  "ensure_options c section [] = Inr c"
| "ensure_options c section ((key, v) # options) =
     (if \<not> has_option c section key then
        (case cp_set c section key v of
           Inl e \<Rightarrow> Inl e
         | Inr c' \<Rightarrow> ensure_options c' section options)
      else ensure_options c section options)"

fun ensure_sections :: "cfg \<Rightarrow> (string \<times> (string \<times> string) list) list \<Rightarrow> py_exc + cfg" where
  "ensure_sections c [] = Inr c"
| "ensure_sections c ((section, options) # rest) =
     (case (if \<not> has_section c section then add_section c section else Inr c) of
        Inl e \<Rightarrow> Inl e
      | Inr c1 \<Rightarrow>
          (case ensure_options c1 section options of
             Inl e \<Rightarrow> Inl e
           | Inr c2 \<Rightarrow> ensure_sections c2 rest))"

text \<open>
  The last step of \<^verbatim>\<open>load_config\<close>: the root directory is created; when that fails the
  root path is replaced, in the parser only, by the working directory.
\<close>

definition ensure_root :: "os_state \<Rightarrow> cfgmgr \<Rightarrow> py_exc + cfgmgr \<times> os_state" where
  "ensure_root os cm =
     (case FTPConfigManager_get os cm ''general'' ''root_path'' of
        Inl e \<Rightarrow> Inl e
      | Inr root_path \<Rightarrow>
          (case (case root_path of PStr p \<Rightarrow> makedirs os p | _ \<Rightarrow> Inl TypeError) of
             Inr os' \<Rightarrow> Inr (cm, os')
           | Inl e \<Rightarrow>
               (let default_path = abspath os (cwd os) in
                case cp_set (config cm) ''general'' ''root_path'' default_path of
                  Inl e' \<Rightarrow> Inl e'
                | Inr c \<Rightarrow>
                    (case makedirs os default_path of
                       Inl e' \<Rightarrow> Inl e'
                     | Inr os' \<Rightarrow> Inr (cm\<lparr>config := c\<rparr>, os')))))"

definition load_config :: "os_state \<Rightarrow> cfgmgr \<Rightarrow> py_exc + cfgmgr \<times> os_state" where
  "load_config os cm =
     (case (if \<not> path_exists os (config_path cm) then create_default_config os cm
            else Inr (cm, os)) of
        Inl e \<Rightarrow> Inl e
      | Inr (cm1, os1) \<Rightarrow>
          (case read_config os1 (config_path cm1) (config cm1) of
             Inl e \<Rightarrow> Inl e
           | Inr c2 \<Rightarrow>
               (case ensure_sections c2 (DEFAULT_CONFIG os1) of
                  Inl e \<Rightarrow> Inl e
                | Inr c3 \<Rightarrow> ensure_root os1 (cm1\<lparr>config := c3\<rparr>))))"

text \<open>\<^verbatim>\<open>FTPConfigManager.__init__\<close>.\<close>

definition FTPConfigManager_init :: "os_state \<Rightarrow> string \<Rightarrow> py_exc + cfgmgr \<times> os_state" where
  "FTPConfigManager_init os path =
     load_config os \<lparr>config_path = abspath os path, config = ConfigParser\<rparr>"

text \<open>
  \<^verbatim>\<open>save\<close>. The two loops write into \<^verbatim>\<open>self.config\<close> itself, so a parser state comes
  back also when an exception stops them: the first component is the parser as the loops
  left it, the second the exception, if any.
\<close>

fun save_options :: "os_state \<Rightarrow> cfg \<Rightarrow> string \<Rightarrow> (string \<times> pyval) list \<Rightarrow> cfg \<times> py_exc option" where
  "save_options os c section [] = (c, None)"
| "save_options os c section ((key, v) # options) =
     (let v' = (if key = ''root_path'' then abspath os (py_str v) else py_str v) in
      case cp_set c section key v' of
        Inl e \<Rightarrow> (c, Some e)
      | Inr c' \<Rightarrow> save_options os c' section options)"

fun save_sections ::
  "os_state \<Rightarrow> cfg \<Rightarrow> (string \<times> (string \<times> pyval) list) list \<Rightarrow> cfg \<times> py_exc option" where
  "save_sections os c [] = (c, None)"
| "save_sections os c ((section, options) # rest) =
     (case save_options os c section options of
        (c', Some e) \<Rightarrow> (c', Some e)
      | (c', None) \<Rightarrow> save_sections os c' rest)"

text \<open>
  The validation and the write that follow the loops, inside the same \<^verbatim>\<open>try\<close>. The
  operating system comes back as the steps left it, with the exception, if any.
\<close>

definition validate_and_write :: "os_state \<Rightarrow> string \<Rightarrow> cfg \<Rightarrow> os_state \<times> py_exc option" where
  "validate_and_write os path c =
     (case getint c ''general'' ''port'' of
        Inl e \<Rightarrow> (os, Some e)
      | Inr port \<Rightarrow>
          if \<not> (1 \<le> port \<and> port \<le> 65535) then (os, Some ValueError)
          else
            (case cp_get c ''general'' ''root_path'' of
               Inl e \<Rightarrow> (os, Some e)
             | Inr root_path \<Rightarrow>
                 (case (if \<not> isdir os root_path then makedirs os root_path else Inr os) of
                    Inl e \<Rightarrow> (os, Some e)
                  | Inr os1 \<Rightarrow>
                      (case write_config os1 path c of
                         Inl e \<Rightarrow> (os1, Some e)
                       | Inr os2 \<Rightarrow> (os2, None)))))"

definition save ::
  "os_state \<Rightarrow> cfgmgr \<Rightarrow> (string \<times> (string \<times> pyval) list) list \<Rightarrow> bool \<times> cfgmgr \<times> os_state" where
  "save os cm settings =
     (case save_sections os (config cm) settings of
        (c, Some e) \<Rightarrow> (False, cm\<lparr>config := c\<rparr>, os)
      | (c, None) \<Rightarrow>
          (case validate_and_write os (config_path cm) c of
             (os', Some e) \<Rightarrow> (False, cm\<lparr>config := c\<rparr>, os')
           | (os', None) \<Rightarrow> (True, cm\<lparr>config := c\<rparr>, os')))"

subsection \<open>What a parser holds for a section\<close>

text \<open>
  The raw values a parser gives for the options of a section: those of the section over
  those of \<^verbatim>\<open>DEFAULT\<close>. The names of the recognized options, and their default values.
\<close>

definition option_values :: "cfg \<Rightarrow> string \<Rightarrow> string \<rightharpoonup> string" where
  "option_values c section =
     (case sections c section of None \<Rightarrow> defaults c | Some sectdict \<Rightarrow> defaults c ++ sectdict)"

definition recognized_keys :: "string list" where
  "recognized_keys =
     [''port'', ''root_path'', ''max_connections'', ''timeout'', ''encoding'', ''log_level'',
      ''save_log'']"

definition general_defaults :: "os_state \<Rightarrow> string \<rightharpoonup> string" where
  "general_defaults os = map_of (the (map_of (DEFAULT_CONFIG os) ''general''))"

text \<open>
  The encodings and log levels the configuration tab offers (\<^verbatim>\<open>_setup_config_tab\<close>).
\<close>

definition encoding_items :: "string list" where
  "encoding_items = [''gb18030'', ''utf-8'', ''latin1'']"

definition log_level_items :: "string list" where
  "log_level_items = [''DEBUG'', ''INFO'', ''WARNING'', ''ERROR'', ''CRITICAL'']"

section \<open>Text codecs\<close>

text \<open>
  Bytes are a \<^typ>\<open>string\<close>, text is a list of code points. A codec is given by how it reads
  the front of a non-empty byte sequence, \<open>(Some cp, k)\<close> for a character made of the first
  \<open>k + 1\<close> bytes and \<open>(None, k)\<close> for \<open>k + 1\<close> malformed bytes, and by the bytes of each
  code point it can encode. The error handler is one of \<^verbatim>\<open>'strict'\<close>, \<^verbatim>\<open>'ignore'\<close>
  and \<^verbatim>\<open>'replace'\<close>.
\<close>

record codec =
  decode_step :: "string \<Rightarrow> nat option \<times> nat"
  encode_char :: "nat \<Rightarrow> string option"

datatype errors = Strict | Ignore | Replace

function decode_with :: "codec \<Rightarrow> errors \<Rightarrow> string \<Rightarrow> py_exc + nat list" where
  "decode_with cd er bs =
     (if bs = [] then Inr []
      else case decode_step cd bs of
        (Some cp, k) \<Rightarrow>
          (case decode_with cd er (drop (Suc k) bs) of
             Inl e \<Rightarrow> Inl e
           | Inr t \<Rightarrow> Inr (cp # t))
      | (None, k) \<Rightarrow>
          (case er of
             Strict \<Rightarrow> Inl UnicodeDecodeError
           | Ignore \<Rightarrow> decode_with cd er (drop (Suc k) bs)
           | Replace \<Rightarrow>
               (case decode_with cd er (drop (Suc k) bs) of
                  Inl e \<Rightarrow> Inl e
                | Inr t \<Rightarrow> Inr (65533 # t))))"
  by pat_completeness auto
termination
  by (relation "measure (\<lambda>(cd, er, bs). length bs)") auto

declare decode_with.simps [simp del]

fun encode_with :: "codec \<Rightarrow> errors \<Rightarrow> nat list \<Rightarrow> py_exc + string" where
  "encode_with cd er [] = Inr []"
| "encode_with cd er (cp # t) =
     (case encode_char cd cp of
        Some bs \<Rightarrow>
          (case encode_with cd er t of Inl e \<Rightarrow> Inl e | Inr rest \<Rightarrow> Inr (bs @ rest))
      | None \<Rightarrow>
          (case er of
             Strict \<Rightarrow> Inl UnicodeEncodeError
           | Ignore \<Rightarrow> encode_with cd er t
           | Replace \<Rightarrow>
               (case encode_char cd 63 of
                  None \<Rightarrow> Inl UnicodeEncodeError
                | Some q \<Rightarrow>
                    (case encode_with cd er t of
                       Inl e \<Rightarrow> Inl e
                     | Inr rest \<Rightarrow> Inr (q @ rest)))))"

text \<open>
  \<^verbatim>\<open>bytes.decode(encoding, errors)\<close> and \<^verbatim>\<open>str.encode(encoding, errors)\<close> look the
  codec up by name in the registry; an unknown name raises \<^verbatim>\<open>LookupError\<close>.
\<close>

definition py_decode :: "(string \<rightharpoonup> codec) \<Rightarrow> string \<Rightarrow> errors \<Rightarrow> string \<Rightarrow> py_exc + nat list" where
  "py_decode reg enc er bs =
     (case reg enc of None \<Rightarrow> Inl LookupError | Some cd \<Rightarrow> decode_with cd er bs)"

definition py_encode :: "(string \<rightharpoonup> codec) \<Rightarrow> string \<Rightarrow> errors \<Rightarrow> nat list \<Rightarrow> py_exc + string" where
  "py_encode reg enc er t =
     (case reg enc of None \<Rightarrow> Inl LookupError | Some cd \<Rightarrow> encode_with cd er t)"

text \<open>Latin-1: every byte is the code point of its value.\<close>

definition latin1 :: codec where
  "latin1 =
     \<lparr>decode_step = (\<lambda>bs. (Some (of_char (hd bs)), 0)),
      encode_char = (\<lambda>cp. if cp < 256 then Some [char_of cp] else None)\<rparr>"

section \<open>\<^verbatim>\<open>WindowsFTPHandler\<close>\<close>

text \<open>
  The authorizer is a table of users. \<^verbatim>\<open>add_anonymous(homedir, perm=...)\<close> raises
  \<^verbatim>\<open>ValueError\<close> when the home directory is not a directory.
\<close>

record ftp_user =
  homedir :: string
  perm :: string

definition add_anonymous ::
  "os_state \<Rightarrow> (string \<rightharpoonup> ftp_user) \<Rightarrow> pyval \<Rightarrow> string \<Rightarrow> py_exc + (string \<rightharpoonup> ftp_user)" where
  "add_anonymous os table home p =
     (case home of
        PStr d \<Rightarrow>
          if isdir os d then Inr (table(''anonymous'' \<mapsto> \<lparr>homedir = d, perm = p\<rparr>))
          else Inl ValueError
      | _ \<Rightarrow> Inl TypeError)"

text \<open>
  The attributes \<^verbatim>\<open>_start_server\<close> sets on the class \<^verbatim>\<open>WindowsFTPHandler\<close>, and an
  instance of the class: \<^verbatim>\<open>__init__\<close> gives the instance an \<^verbatim>\<open>encoding\<close> and a
  \<^verbatim>\<open>utf8\<close> attribute of its own, which hide those of the class.
\<close>

record handler_class =
  authorizer :: "string \<rightharpoonup> ftp_user"
  timeout :: pyval
  encoding :: pyval
  utf8 :: bool

record handler = handler_class +
  permit_privileged_ports :: bool
  permit_foreign_addresses :: bool
  unicode_errors :: errors

definition WindowsFTPHandler_init :: "handler_class \<Rightarrow> handler" where
  "WindowsFTPHandler_init cls =
     \<lparr>authorizer = authorizer cls, timeout = timeout cls,
      encoding = PStr ''gb18030'', utf8 = False,
      permit_privileged_ports = True, permit_foreign_addresses = True,
      unicode_errors = Replace\<rparr>"

text \<open>\<^verbatim>\<open>decode\<close> and \<^verbatim>\<open>encode\<close>: only the Unicode error of the first attempt is caught.\<close>

definition decode :: "(string \<rightharpoonup> codec) \<Rightarrow> handler \<Rightarrow> string \<Rightarrow> py_exc + nat list" where
  "decode reg self bs =
     (case encoding self of
        PStr enc \<Rightarrow>
          (case py_decode reg enc (unicode_errors self) bs of
             Inl UnicodeDecodeError \<Rightarrow> py_decode reg ''latin1'' (unicode_errors self) bs
           | r \<Rightarrow> r)
      | _ \<Rightarrow> Inl TypeError)"

definition encode :: "(string \<rightharpoonup> codec) \<Rightarrow> handler \<Rightarrow> nat list \<Rightarrow> py_exc + string" where
  "encode reg self t =
     (case encoding self of
        PStr enc \<Rightarrow>
          (case py_encode reg enc (unicode_errors self) t of
             Inl UnicodeEncodeError \<Rightarrow> py_encode reg ''latin1'' (unicode_errors self) t
           | r \<Rightarrow> r)
      | _ \<Rightarrow> Inl TypeError)"

section \<open>The server thread and the main window\<close>

text \<open>
  The texts the program writes to the log, the status bar and the error dialog, by their
  format strings: the server was started on a port, the server was stopped, starting failed
  with an exception, stopping failed, the server thread caught an exception, closing the
  server raised one.
\<close>

datatype message =
    StartedOnPort pyval
  | StoppedMessage
  | StartFailed py_exc
  | StopFailed py_exc
  | ServerError py_exc
  | CloseError py_exc

text \<open>The signals of \<^verbatim>\<open>FTPSignals\<close>; a log line carries the level of its record.\<close>

datatype signal =
    log_received nat message
  | status_update message
  | connection_update int
  | server_started
  | server_stopped
  | error_occurred message

definition INFO :: nat where "INFO = 20"
definition ERROR :: nat where "ERROR = 40"

text \<open>
  An \<^verbatim>\<open>FTPServerThread\<close>: the constructor's arguments, whether \<^verbatim>\<open>self.server\<close> is set,
  the flag \<^verbatim>\<open>_running\<close>, and \<^verbatim>\<open>QThread.isRunning()\<close>. The handler is the class
  \<^verbatim>\<open>WindowsFTPHandler\<close> with the attributes it had when the thread was made.
\<close>

record FTPServerThread =
  t_handler :: handler_class
  t_host :: string
  t_port :: pyval
  t_max_connections :: pyval
  t_server :: bool
  t_running :: bool
  t_isRunning :: bool

text \<open>
  The main window: the configuration manager, the reference \<^verbatim>\<open>self.server_thread\<close> into
  the list of all threads made so far, the class \<^verbatim>\<open>WindowsFTPHandler\<close>, what the start
  button and status label show (\<open>ui_running\<close>), what the tray menu shows (\<open>tray_running\<close>),
  the signals emitted so far, and the level of the root logger.
\<close>

record window =
  manager :: cfgmgr
  server_thread :: "nat option"
  threads :: "FTPServerThread list"
  handler_cls :: handler_class
  ui_running :: bool
  tray_running :: bool
  emitted :: "signal list"
  logger_level :: nat

text \<open>The window after \<^verbatim>\<open>FTPMainWindow.__init__\<close>, which ends with \<^verbatim>\<open>_update_ui_state(False)\<close>.\<close>

definition initial_window :: "cfgmgr \<Rightarrow> handler_class \<Rightarrow> nat \<Rightarrow> window" where
  "initial_window cm cls level =
     \<lparr>manager = cm, server_thread = None, threads = [], handler_cls = cls,
      ui_running = False, tray_running = False, emitted = [], logger_level = level\<rparr>"

text \<open>\<^verbatim>\<open>self.server_thread is not None and self.server_thread.isRunning()\<close>.\<close>

definition thread_isRunning :: "window \<Rightarrow> bool" where
  "thread_isRunning w =
     (case server_thread w of
        None \<Rightarrow> False
      | Some i \<Rightarrow> i < length (threads w) \<and> t_isRunning (threads w ! i))"

definition update_tray_menu :: "window \<Rightarrow> window" where
  "update_tray_menu w = w\<lparr>tray_running := thread_isRunning w\<rparr>"

definition update_ui_state :: "bool \<Rightarrow> window \<Rightarrow> window" where
  "update_ui_state running w = update_tray_menu (w\<lparr>ui_running := running\<rparr>)"

text \<open>
  Emitting a signal runs the slots \<^verbatim>\<open>_setup_connections\<close> connected to it:
  \<^verbatim>\<open>server_started\<close> and \<^verbatim>\<open>server_stopped\<close> update the user interface; the slots of the
  other signals (log view, status bar, error dialog) change nothing that is modelled.
\<close>

definition emit :: "signal \<Rightarrow> window \<Rightarrow> window" where
  "emit sg w =
     (let w' = w\<lparr>emitted := emitted w @ [sg]\<rparr> in
      case sg of
        server_started \<Rightarrow> update_ui_state True w'
      | server_stopped \<Rightarrow> update_ui_state False w'
      | _ \<Rightarrow> w')"

text \<open>
  \<^verbatim>\<open>logging.info\<close> and \<^verbatim>\<open>logging.error\<close>: a record at or above the logger's level reaches
  \<^verbatim>\<open>FTPLogger.emit\<close>, which emits \<^verbatim>\<open>log_received\<close>.
\<close>

definition logging_log :: "nat \<Rightarrow> message \<Rightarrow> window \<Rightarrow> window" where
  "logging_log level msg w =
     (if logger_level w \<le> level then emit (log_received level msg) w else w)"

subsection \<open>\<^verbatim>\<open>_start_server\<close>\<close>

text \<open>
  The body of the \<^verbatim>\<open>try\<close>: the window as the statements left it, and the exception that
  stopped them, if any. The later reads of the port for the messages repeat a read that
  succeeded on the same configuration; the message of the tray icon changes nothing that
  is modelled.
\<close>

definition start_attempt :: "os_state \<Rightarrow> window \<Rightarrow> window \<times> py_exc option" where
  "start_attempt os w =
     (case FTPConfigManager_get os (manager w) ''general'' ''root_path'' of
        Inl e \<Rightarrow> (w, Some e)
      | Inr root_path \<Rightarrow>
     (case add_anonymous os Map.empty root_path ''elradfmwM'' of
        Inl e \<Rightarrow> (w, Some e)
      | Inr auth \<Rightarrow>
     (let w1 = w\<lparr>handler_cls := (handler_cls w)\<lparr>authorizer := auth\<rparr>\<rparr> in
      case FTPConfigManager_get os (manager w) ''general'' ''timeout'' of
        Inl e \<Rightarrow> (w1, Some e)
      | Inr tm \<Rightarrow>
     (let w2 = w1\<lparr>handler_cls := (handler_cls w1)\<lparr>timeout := tm\<rparr>\<rparr> in
      case FTPConfigManager_get os (manager w) ''general'' ''encoding'' of
        Inl e \<Rightarrow> (w2, Some e)
      | Inr enc \<Rightarrow>
     (let w3 = w2\<lparr>handler_cls := (handler_cls w2)\<lparr>encoding := enc\<rparr>\<rparr> in
      case (case enc of PStr s \<Rightarrow> Inr (lower s = ''utf-8'') | _ \<Rightarrow> Inl AttributeError) of
        Inl e \<Rightarrow> (w3, Some e)
      | Inr u \<Rightarrow>
     (let w4 = w3\<lparr>handler_cls := (handler_cls w3)\<lparr>utf8 := u\<rparr>\<rparr> in
      case FTPConfigManager_get os (manager w) ''general'' ''port'' of
        Inl e \<Rightarrow> (w4, Some e)
      | Inr p \<Rightarrow>
     (case FTPConfigManager_get os (manager w) ''general'' ''max_connections'' of
        Inl e \<Rightarrow> (w4, Some e)
      | Inr mc \<Rightarrow>
     (let th = \<lparr>t_handler = handler_cls w4, t_host = ''0.0.0.0'', t_port = p,
                t_max_connections = mc, t_server = False, t_running = False,
                t_isRunning = True\<rparr>;
          w5 = w4\<lparr>threads := threads w4 @ [th], server_thread := Some (length (threads w4))\<rparr>;
          w6 = emit server_started w5;
          w7 = emit (status_update (StartedOnPort p)) w6;
          w8 = logging_log INFO (StartedOnPort p) w7
      in (w8, None)))))))))"

definition start_server :: "os_state \<Rightarrow> window \<Rightarrow> window" where
  "start_server os w =
     (case start_attempt os w of
        (w', None) \<Rightarrow> w'
      | (w', Some e) \<Rightarrow>
          update_ui_state False
            (emit (error_occurred (StartFailed e)) (logging_log ERROR (StartFailed e) w')))"

subsection \<open>The thread's \<^verbatim>\<open>run\<close> and \<^verbatim>\<open>stop\<close>\<close>

text \<open>
  What happens in a server thread is decided outside the program: \<open>Bind i r\<close> is the
  outcome of \<^verbatim>\<open>FTPServer((host, port), handler)\<close> in \<^verbatim>\<open>run\<close> of thread \<open>i\<close>, \<open>ServeEnd i r\<close>
  the end of its \<^verbatim>\<open>serve_forever()\<close>; \<open>r\<close> is the exception raised, if any. \<^verbatim>\<open>run\<close>
  catches the exception, logs it and clears \<^verbatim>\<open>_running\<close>; then the thread is finished.
\<close>

datatype worker_event = Bind nat "py_exc option" | ServeEnd nat "py_exc option"

definition finish_run :: "nat \<Rightarrow> py_exc option \<Rightarrow> window \<Rightarrow> window" where
  "finish_run i r w =
     (let w' = (case r of None \<Rightarrow> w | Some e \<Rightarrow> logging_log ERROR (ServerError e) w) in
      w'\<lparr>threads := (threads w')[i := (threads w' ! i)\<lparr>t_running := False, t_isRunning := False\<rparr>]\<rparr>)"

fun worker_step :: "worker_event \<Rightarrow> window \<Rightarrow> window" where
  "worker_step (Bind i r) w =
     (if i < length (threads w) \<and> t_isRunning (threads w ! i) \<and> \<not> t_server (threads w ! i) then
        (case r of
           None \<Rightarrow> w\<lparr>threads := (threads w)[i := (threads w ! i)\<lparr>t_server := True, t_running := True\<rparr>]\<rparr>
         | Some e \<Rightarrow> finish_run i r w)
      else w)"
| "worker_step (ServeEnd i r) w =
     (if i < length (threads w) \<and> t_isRunning (threads w ! i) \<and> t_server (threads w ! i) then
        finish_run i r w
      else w)"

text \<open>
  \<^verbatim>\<open>FTPServerThread.stop\<close>, called by the window on thread \<open>i\<close>; \<open>close_exc\<close> is the
  exception \<^verbatim>\<open>close_all()\<close> raises, if any.
\<close>

definition thread_stop :: "nat \<Rightarrow> py_exc option \<Rightarrow> window \<Rightarrow> window" where
  "thread_stop i close_exc w =
     (if t_server (threads w ! i) \<and> t_running (threads w ! i) then
        (let w' = (case close_exc of None \<Rightarrow> w | Some e \<Rightarrow> logging_log ERROR (CloseError e) w) in
         w'\<lparr>threads := (threads w')[i := (threads w' ! i)\<lparr>t_running := False\<rparr>]\<rparr>)
      else w)"

subsection \<open>\<^verbatim>\<open>_stop_server\<close> and \<^verbatim>\<open>_toggle_server\<close>\<close>

text \<open>
  \<open>during\<close> are the events of the server threads while the window waits in
  \<^verbatim>\<open>wait(2000)\<close>. The result of the wait is not read by the program. None of the modelled
  statements of the \<^verbatim>\<open>try\<close> raises, so its \<^verbatim>\<open>except\<close> branch has no counterpart.
\<close>

definition stop_server :: "py_exc option \<Rightarrow> worker_event list \<Rightarrow> window \<Rightarrow> window" where
  "stop_server close_exc during w =
     (case server_thread w of
        None \<Rightarrow> w
      | Some i \<Rightarrow>
          (let w1 = thread_stop i close_exc w;
               w2 = fold worker_step during w1;
               w3 = emit server_stopped w2;
               w4 = emit (status_update StoppedMessage) w3
           in logging_log INFO StoppedMessage w4))"

definition toggle_server :: "os_state \<Rightarrow> py_exc option \<Rightarrow> worker_event list \<Rightarrow> window \<Rightarrow> window" where
  "toggle_server os close_exc during w =
     (if thread_isRunning w then stop_server close_exc during w else start_server os w)"

text \<open>
  A run of the program: clicks on the start/stop button (or the tray action), which call
  \<^verbatim>\<open>_toggle_server\<close>, interleaved with the events of the server threads.
\<close>

datatype request = Toggle "py_exc option" "worker_event list" | Worker worker_event

fun step :: "os_state \<Rightarrow> request \<Rightarrow> window \<Rightarrow> window" where
  "step os (Toggle close_exc during) w = toggle_server os close_exc during w"
| "step os (Worker ev) w = worker_step ev w"

definition run :: "os_state \<Rightarrow> request list \<Rightarrow> window \<Rightarrow> window" where
  "run os rs w = fold (step os) rs w"

text \<open>The server threads that are running.\<close>

definition active_threads :: "window \<Rightarrow> FTPServerThread list" where
  "active_threads w = filter t_isRunning (threads w)"

text \<open>A server thread that is running is the one \<^verbatim>\<open>self.server_thread\<close> refers to.\<close>

definition only_current_runs :: "window \<Rightarrow> bool" where
  "only_current_runs w =
     (\<forall>i < length (threads w). t_isRunning (threads w ! i) \<longrightarrow> server_thread w = Some i)"

definition is_error :: "signal \<Rightarrow> bool" where
  "is_error sg = (case sg of error_occurred m \<Rightarrow> True | _ \<Rightarrow> False)"

section \<open>Example values\<close>

text \<open>
  \<^verbatim>\<open>os.path.abspath\<close> as \<^verbatim>\<open>posixpath\<close> computes it (\<^verbatim>\<open>normpath\<close> of the path joined to
  the working directory), for the example operating system below.
\<close>

fun split_on :: "char \<Rightarrow> string \<Rightarrow> string list" where
  "split_on d [] = [[]]"
| "split_on d (c # cs) =
     (if c = d then [] # split_on d cs
      else (case split_on d cs of x # xs \<Rightarrow> (c # x) # xs | [] \<Rightarrow> [[c]]))"

fun join_with :: "string \<Rightarrow> string list \<Rightarrow> string" where
  "join_with sep [] = []"
| "join_with sep [x] = x"
| "join_with sep (x # y # ys) = x @ sep @ join_with sep (y # ys)"

fun norm_comps :: "nat \<Rightarrow> string list \<Rightarrow> string list \<Rightarrow> string list" where
  "norm_comps initial_slashes [] new_comps = new_comps"
| "norm_comps initial_slashes (part # comps) new_comps =
     (if part = [] \<or> part = ''.'' then norm_comps initial_slashes comps new_comps
      else if part \<noteq> ''..'' \<or> (initial_slashes = 0 \<and> new_comps = [])
              \<or> (new_comps \<noteq> [] \<and> last new_comps = ''..'')
        then norm_comps initial_slashes comps (new_comps @ [part])
      else if new_comps \<noteq> [] then norm_comps initial_slashes comps (butlast new_comps)
      else norm_comps initial_slashes comps new_comps)"

definition posix_normpath :: "string \<Rightarrow> string" where
  "posix_normpath path =
     (if path = [] then ''.''
      else
        (let initial_slashes =
               (if take 1 path \<noteq> ''/'' then 0
                else if take 2 path = ''//'' \<and> take 3 path \<noteq> ''///'' then 2 else 1);
             comps = norm_comps initial_slashes (split_on CHR ''/'' path) [];
             p = replicate initial_slashes CHR ''/'' @ join_with ''/'' comps
         in if p = [] then ''.'' else p))"

definition posix_join :: "string \<Rightarrow> string \<Rightarrow> string" where
  "posix_join a b =
     (if take 1 b = ''/'' then b
      else if a = [] \<or> last a = CHR ''/'' then a @ b
      else a @ ''/'' @ b)"

definition posix_abspath :: "string \<Rightarrow> string \<Rightarrow> string" where
  "posix_abspath wd path =
     posix_normpath (if take 1 path = ''/'' then path else posix_join wd path)"

text \<open>
  An operating system with the working directory \<^verbatim>\<open>/srv\<close> and no configuration file,
  in which every directory can be made and every file written, and a file reads back as
  it was written.
\<close>

definition example_os :: os_state where
  "example_os =
     \<lparr>cwd = ''/srv'', abspath = posix_abspath ''/srv'', dirs = {''/srv''},
      creatable = (\<lambda>p. True), files = Map.empty, writable = (\<lambda>p. True), reread = IniFile\<rparr>"

definition example_settings :: "(string \<times> (string \<times> pyval) list) list" where
  "example_settings =
     [(''general'',
       [(''port'', PInt 2121), (''max_connections'', PInt 10), (''timeout'', PInt 60),
        (''encoding'', PStr ''utf-8''), (''log_level'', PStr ''DEBUG''),
        (''save_log'', PBool True), (''root_path'', PStr ''/srv/ftp/'')])]"

text \<open>
  A configuration file that has only the port and the root path, and one whose port is
  not a number.
\<close>

definition partial_file :: cfg where
  "partial_file =
     \<lparr>defaults = Map.empty,
      sections = [''general'' \<mapsto> [''port'' \<mapsto> ''2121'', ''root_path'' \<mapsto> ''/data'']]\<rparr>"

definition partial_os :: os_state where
  "partial_os = example_os\<lparr>files := [''/srv/config.ini'' \<mapsto> IniFile partial_file]\<rparr>"

definition broken_file :: cfg where
  "broken_file = \<lparr>defaults = Map.empty, sections = [''general'' \<mapsto> [''port'' \<mapsto> ''abc'', ''save_log'' \<mapsto> ''maybe'']]\<rparr>"

definition broken_os :: os_state where
  "broken_os = example_os\<lparr>files := [''/srv/config.ini'' \<mapsto> IniFile broken_file]\<rparr>"

text \<open>Whether the file at a path, as the parser would read it, has an option.\<close>

definition file_has_option :: "os_state \<Rightarrow> string \<Rightarrow> string \<Rightarrow> string \<Rightarrow> bool" where
  "file_has_option os path section key =
     (case files os path of Some (IniFile f) \<Rightarrow> has_option f section key | _ \<Rightarrow> False)"

text \<open>
  A codec for the ASCII range, and a registry in which it stands for \<^verbatim>\<open>gb18030\<close>; a
  handler class as the library might leave it before the first start.
\<close>

definition ascii :: codec where
  "ascii =
     \<lparr>decode_step = (\<lambda>bs. if of_char (hd bs) < (128::nat) then (Some (of_char (hd bs)), 0) else (None, 0)),
      encode_char = (\<lambda>cp. if cp < 128 then Some [char_of cp] else None)\<rparr>"

definition example_registry :: "string \<rightharpoonup> codec" where
  "example_registry = [''gb18030'' \<mapsto> ascii, ''latin1'' \<mapsto> latin1]"

definition example_class :: handler_class where
  "example_class = \<lparr>authorizer = Map.empty, timeout = PInt 300, encoding = PStr ''utf8'', utf8 = True\<rparr>"

text \<open>
  The manager and the operating system after \<^verbatim>\<open>FTPConfigManager('config.ini')\<close> in the
  example operating system, and the main window made from them.
\<close>

definition example_manager :: cfgmgr where
  "example_manager =
     \<lparr>config_path = ''/srv/config.ini'',
      config = \<lparr>defaults = Map.empty,
                sections = [''general'' \<mapsto>
                  [''port'' \<mapsto> ''21'', ''root_path'' \<mapsto> ''/srv'',
                   ''max_connections'' \<mapsto> ''50'', ''timeout'' \<mapsto> ''300'',
                   ''encoding'' \<mapsto> ''gb18030'', ''log_level'' \<mapsto> ''INFO'',
                   ''save_log'' \<mapsto> ''False'']]\<rparr>\<rparr>"

definition loaded_os :: os_state where
  "loaded_os = example_os\<lparr>files := [''/srv/config.ini'' \<mapsto> IniFile (config example_manager)]\<rparr>"

definition example_window :: window where
  "example_window = initial_window example_manager example_class INFO"

section \<open>Conversions between integers and text\<close>

lemma digit_val_nth: "k < 10 \<Longrightarrow> digit_val (''0123456789'' ! k) = Some k"
proof -
  assume "k < 10"
  then have "k = 0 \<or> k = 1 \<or> k = 2 \<or> k = 3 \<or> k = 4 \<or> k = 5 \<or> k = 6 \<or> k = 7 \<or> k = 8 \<or> k = 9"
    by presburger
  then show ?thesis
    by (elim disjE) (simp_all add: digit_val_def)
qed

lemma digit_val_digit_char: "digit_val (digit_char d) = Some (d mod 10)"
  by (simp add: digit_char_def digit_val_nth)

lemma digit_char_not_special:
  "digit_char d \<noteq> CHR ''_''" "digit_char d \<noteq> CHR ''-''" "digit_char d \<noteq> CHR ''+''"
  "digit_char d \<noteq> CHR ''%''" "\<not> is_space (digit_char d)"
proof -
  define k where "k = d mod 10"
  have "k < 10" by (simp add: k_def)
  then have "k = 0 \<or> k = 1 \<or> k = 2 \<or> k = 3 \<or> k = 4 \<or> k = 5 \<or> k = 6 \<or> k = 7 \<or> k = 8 \<or> k = 9"
    by presburger
  then show "digit_char d \<noteq> CHR ''_''" "digit_char d \<noteq> CHR ''-''" "digit_char d \<noteq> CHR ''+''"
  "digit_char d \<noteq> CHR ''%''" "\<not> is_space (digit_char d)"
    unfolding digit_char_def k_def [symmetric]
    by (elim disjE; simp add: is_space_def)+
qed

lemma digits_value_append_digit:
  "digits_value acc (str_nat n @ rest) =
     (case rest of [] \<Rightarrow> Some (acc * 10 ^ length (str_nat n) + n)
       | c # cs \<Rightarrow> if c = CHR ''_'' then digits_value (acc * 10 ^ length (str_nat n) + n) cs
                   else digits_value (acc * 10 ^ length (str_nat n) + n) rest)"
proof (induction n arbitrary: acc rest rule: str_nat.induct)
  case (1 n)
  show ?case
  proof (cases "n < 10")
    case True
    then show ?thesis
      by (subst (1 2 3 4) str_nat.simps)
        (simp add: digit_val_digit_char mult.commute split: list.splits)
  next
    case False
    have eq: "str_nat n = str_nat (n div 10) @ [digit_char (n mod 10)]"
      using False by (subst str_nat.simps) simp
    show ?thesis
      unfolding eq using False
      by (simp add: "1.IH" digit_char_not_special digit_val_digit_char algebra_simps split: list.splits)
  qed
qed

lemma digits_value_str_nat: "digits_value 0 (str_nat n) = Some n"
  using digits_value_append_digit [of 0 n "[]"] by simp

lemma str_nat_nonempty: "str_nat n \<noteq> []"
  by (subst str_nat.simps) simp

lemma set_str_nat: "c \<in> set (str_nat n) \<Longrightarrow> \<exists>d. c = digit_char d"
  by (induction n rule: str_nat.induct) (subst (asm) str_nat.simps, auto split: if_splits)

lemma hd_str_nat: "\<exists>d. hd (str_nat n) = digit_char d"
  using set_str_nat [of "hd (str_nat n)" n] str_nat_nonempty [of n] by simp

lemma last_str_nat: "\<exists>d. last (str_nat n) = digit_char d"
  using set_str_nat [of "last (str_nat n)" n] str_nat_nonempty [of n] by simp

lemma strip_id:
  assumes "s \<noteq> []" "\<not> is_space (hd s)" "\<not> is_space (last s)"
  shows "strip s = s"
proof -
  have front: "dropWhile is_space s = s"
    using assms by (cases s) auto
  have rear: "dropWhile is_space (rev s) = rev s"
    using assms by (cases s rule: rev_cases) auto
  show ?thesis
    by (simp add: strip_def front rear)
qed

lemma minus_not_space: "\<not> is_space CHR ''-''"
  by (simp add: is_space_def)

lemma strip_str_int: "strip (str_int i) = str_int i"
proof (rule strip_id)
  show "str_int i \<noteq> []" by (simp add: str_int_def str_nat_nonempty)
  show "\<not> is_space (hd (str_int i))"
    using hd_str_nat [of "nat i"] by (auto simp: str_int_def digit_char_not_special minus_not_space)
  show "\<not> is_space (last (str_int i))"
    using last_str_nat [of "nat i"] last_str_nat [of "nat (- i)"]
    by (auto simp: str_int_def digit_char_not_special str_nat_nonempty)
qed

text \<open>\<^verbatim>\<open>int(str(i)) == i\<close>.\<close>

lemma py_int_str_int: "py_int (str_int i) = Some i"
proof (cases "i < 0")
  case True
  then show ?thesis
    by (simp add: py_int_def strip_str_int) (simp add: str_int_def digits_value_str_nat)
next
  case False
  obtain c cs where cs: "str_nat (nat i) = c # cs"
    using str_nat_nonempty [of "nat i"] by (cases "str_nat (nat i)") auto
  obtain d where d: "c = digit_char d"
    using hd_str_nat [of "nat i"] cs by auto
  have "digits_value 0 (c # cs) = Some (nat i)"
    using digits_value_str_nat [of "nat i"] cs by simp
  with False cs d show ?thesis
    by (simp add: py_int_def strip_str_int) (simp add: str_int_def digit_char_not_special)
qed

lemma percent_notin_str_int: "CHR ''%'' \<notin> set (str_int i)"
  using set_str_nat digit_char_not_special(4)
  by (auto simp: str_int_def) metis+

section \<open>Values without interpolation\<close>

text \<open>
  A value without a percent sign passes \<^verbatim>\<open>before_set\<close> and is read back unchanged by
  \<^verbatim>\<open>before_get\<close>.
\<close>

lemma set_remove_escaped: "set (remove_escaped v) \<subseteq> set v"
  by (induction v rule: remove_escaped.induct) auto

lemma key_match_after_subset:
  assumes "key_match rest = Some (name, after)"
  shows "set after \<subseteq> set rest"
proof -
  obtain a b cs where rest: "rest = a # b # cs"
    using assms by (auto simp: key_match_def split: list.splits)
  have "after = drop 2 (dropWhile (\<lambda>c. c \<noteq> CHR '')'') cs)"
    using assms unfolding rest key_match_def Let_def by (simp split: if_splits)
  then have "set after \<subseteq> set cs"
    using set_drop_subset [of 2 "dropWhile (\<lambda>c. c \<noteq> CHR '')'') cs"]
      set_dropWhileD [of _ "\<lambda>c. c \<noteq> CHR '')''" cs]
    by auto
  then show ?thesis by (auto simp: rest)
qed

lemma set_remove_keys: "set (remove_keys v) \<subseteq> set v"
proof (induction v rule: remove_keys.induct)
  case 1
  show ?case by simp
next
  case (2 c cs)
  show ?case
  proof (cases "key_match (c # cs)")
    case None
    with 2 show ?thesis by auto
  next
    case (Some r)
    obtain name after where r: "r = (name, after)" by (cases r)
    have "set (remove_keys after) \<subseteq> set after"
      using 2(2) [OF Some r [symmetric]] .
    moreover have "set after \<subseteq> set (c # cs)"
      using key_match_after_subset Some r by blast
    ultimately show ?thesis using Some r by auto
  qed
qed

lemma before_set_plain: "CHR ''%'' \<notin> set v \<Longrightarrow> before_set v"
  using set_remove_keys [of "remove_escaped v"] set_remove_escaped [of v]
  by (auto simp: before_set_def)

lemma interpolate_some_plain:
  "CHR ''%'' \<notin> set v \<Longrightarrow> depth \<le> MAX_INTERPOLATION_DEPTH \<Longrightarrow> interpolate_some depth m v = Inr v"
proof (induction v)
  case Nil
  then show ?case by (subst interpolate_some.simps) simp
next
  case (Cons c v)
  then have "c \<noteq> CHR ''%''" and "CHR ''%'' \<notin> set v" by auto
  with Cons show ?case by (subst interpolate_some.simps) simp
qed

lemma before_get_plain: "CHR ''%'' \<notin> set v \<Longrightarrow> before_get d v = Inr v"
  by (simp add: before_get_def interpolate_some_plain MAX_INTERPOLATION_DEPTH_def)

lemma optionxform_keys:
  "optionxform ''port'' = ''port''"
  "optionxform ''root_path'' = ''root_path''"
  "optionxform ''max_connections'' = ''max_connections''"
  "optionxform ''timeout'' = ''timeout''"
  "optionxform ''encoding'' = ''encoding''"
  "optionxform ''log_level'' = ''log_level''"
  "optionxform ''save_log'' = ''save_log''"
  by (simp_all add: optionxform_def lower_def lower_char_def)

lemma cp_set_plain:
  "CHR ''%'' \<notin> set v \<Longrightarrow> cp_set c section option v =
     (if section = [] \<or> section = default_section then
        Inr (c\<lparr>defaults := (defaults c)(optionxform option \<mapsto> v)\<rparr>)
      else case sections c section of
             None \<Rightarrow> Inl NoSectionError
           | Some sectdict \<Rightarrow>
               Inr (c\<lparr>sections := (sections c)(section \<mapsto> sectdict(optionxform option \<mapsto> v))\<rparr>))"
  by (simp add: cp_set_def before_set_plain)

lemma map_add_same: "m ++ m = m"
  by (rule ext) (simp add: map_add_def split: option.splits)

lemma read_merge_same: "read_merge c c = c"
proof -
  have "sections (read_merge c c) = sections c"
    by (rule ext) (simp add: read_merge_def map_add_same split: option.splits)
  moreover have "defaults (read_merge c c) = defaults c"
    by (simp add: read_merge_def map_add_same)
  ultimately show ?thesis by (simp add: read_merge_def)
qed

lemma read_merge_fresh: "read_merge ConfigParser c = c"
proof -
  have "sections (read_merge ConfigParser c) = sections c"
    by (rule ext) (simp add: read_merge_def ConfigParser_def split: option.splits)
  moreover have "defaults (read_merge ConfigParser c) = defaults c"
    by (simp add: read_merge_def ConfigParser_def)
  ultimately show ?thesis by (simp add: read_merge_def ConfigParser_def)
qed

section \<open>Evaluating the configuration manager\<close>

lemmas config_eval =
  FTPConfigManager_init_def load_config_def create_default_config_def ensure_root_def
  path_exists_def write_config_def read_config_def read_merge_same makedirs_def isdir_def
  DEFAULT_CONFIG_def ConfigParser_def add_section_def has_section_def has_option_def
  default_section_def cp_set_plain optionxform_keys
  FTPConfigManager_get_def typed_lookup_def default_value_def
  cp_get_def getint_def getboolean_def unify_values_def before_get_plain
  example_os_def posix_abspath_def posix_normpath_def posix_join_def

lemmas value_eval =
  str_int_def str_nat.simps digit_char_def py_int_def strip_def is_space_def digit_val_def
  BOOLEAN_STATES_def lower_def lower_char_def

lemmas save_eval = save_def validate_and_write_def

lemma init_example:
  "FTPConfigManager_init example_os ''config.ini'' = Inr (example_manager, loaded_os)"
  by (simp add: example_manager_def loaded_os_def config_eval)

section \<open>The configuration manager\<close>

text \<open>
  Claim C8, at a file whose port is \<^verbatim>\<open>abc\<close> and whose \<^verbatim>\<open>save_log\<close> is \<^verbatim>\<open>maybe\<close>: the
  claim says \<^verbatim>\<open>get\<close> returns a value of the declared type, the default as an integer or a
  boolean when the stored text does not parse. In the code the \<^verbatim>\<open>except\<close> branch returns the
  entry of \<^verbatim>\<open>DEFAULT_CONFIG\<close> as it stands, a string: \<^verbatim>\<open>'21'\<close> for the port and
  \<^verbatim>\<open>'False'\<close> for \<^verbatim>\<open>save_log\<close>.
\<close>

theorem get_fallback_untyped:
  "case FTPConfigManager_init broken_os ''config.ini'' of
     Inl e \<Rightarrow> False
   | Inr (cm, os1) \<Rightarrow>
       FTPConfigManager_get os1 cm ''general'' ''port'' = Inr (PStr ''21'')
       \<and> FTPConfigManager_get os1 cm ''general'' ''save_log'' = Inr (PStr ''False'')"
  by (simp add: broken_os_def broken_file_def config_eval value_eval read_merge_fresh [unfolded ConfigParser_def])

text \<open>
  Claim C2, at the settings \<^verbatim>\<open>{'general': {'port': 0}}\<close> saved over the default
  configuration: \<^verbatim>\<open>save\<close> returns \<^verbatim>\<open>False\<close> and the file is as it was, but the parser has
  kept the rejected value, and \<^verbatim>\<open>get\<close> returns port 0 afterwards where it returned 21
  before.
\<close>

theorem failed_save_keeps_rejected_port:
  "case FTPConfigManager_init example_os ''config.ini'' of
     Inl e \<Rightarrow> False
   | Inr (cm, os1) \<Rightarrow>
       FTPConfigManager_get os1 cm ''general'' ''port'' = Inr (PInt 21)
       \<and> (case save os1 cm [(''general'', [(''port'', PInt 0)])] of
            (ok, cm', os2) \<Rightarrow>
              \<not> ok \<and> files os2 = files os1
              \<and> FTPConfigManager_get os2 cm' ''general'' ''port'' = Inr (PInt 0))"
  by (simp add: config_eval value_eval save_eval)

text \<open>
  Claim C6 as stated fails: after \<^verbatim>\<open>load_config\<close> on a file that has only the port and
  the root path, the parser has the \<^verbatim>\<open>timeout\<close> option but the file is untouched and still
  has none.
\<close>

theorem load_leaves_file_incomplete:
  "case FTPConfigManager_init partial_os ''config.ini'' of
     Inl e \<Rightarrow> False
   | Inr (cm, os1) \<Rightarrow>
       files os1 = files partial_os
       \<and> \<not> file_has_option os1 (config_path cm) ''general'' ''timeout''
       \<and> has_option (config cm) ''general'' ''timeout''"
  by (simp add: partial_os_def partial_file_def file_has_option_def config_eval value_eval
      read_merge_fresh [unfolded ConfigParser_def])

subsection \<open>Loading a file that lacks options\<close>

lemma has_option_values:
  "sections c section \<noteq> None \<Longrightarrow> section \<noteq> [] \<Longrightarrow> section \<noteq> default_section \<Longrightarrow>
   has_option c section key = (option_values c section (optionxform key) \<noteq> None)"
  by (auto simp: has_option_def option_values_def map_add_def split: option.splits)

lemma cp_set_values:
  assumes "cp_set c section key v = Inr c'" and "section \<noteq> []" and "section \<noteq> default_section"
  shows "option_values c' section = (option_values c section)(optionxform key \<mapsto> v)"
    and "sections c' section \<noteq> None" and "sections c section \<noteq> None"
  using assms
  by (auto simp: cp_set_def option_values_def split: if_splits option.splits)

lemma ensure_options_values:
  assumes "ensure_options c section opts = Inr c'"
    and "sections c section \<noteq> None" and "section \<noteq> []" and "section \<noteq> default_section"
  shows "option_values c' section key =
           (case option_values c section key of
              Some x \<Rightarrow> Some x
            | None \<Rightarrow> map_of (map (\<lambda>(k, v). (optionxform k, v)) opts) key)"
    and "sections c' section \<noteq> None"
  using assms
proof (induction opts arbitrary: c)
  case Nil
  {
    case 1
    then show ?case by (simp split: option.splits)
  next
    case 2
    then show ?case by simp
  }
next
  case (Cons kv opts)
  obtain k v where kv: "kv = (k, v)" by (cases kv)
  {
    case 1
    show ?case
    proof (cases "has_option c section k")
      case True
      then have present: "option_values c section (optionxform k) \<noteq> None"
        using 1 by (simp add: has_option_values)
      have "ensure_options c section opts = Inr c'"
        using 1(1) True kv by simp
      from Cons.IH(1) [OF this 1(2-4)] present
      show ?thesis unfolding kv by (auto split: option.splits)
    next
      case False
      then have absent: "option_values c section (optionxform k) = None"
        using 1 by (simp add: has_option_values)
      obtain c1 where set1: "cp_set c section k v = Inr c1"
        and rest: "ensure_options c1 section opts = Inr c'"
        using 1(1) False kv by (auto split: sum.splits)
      note vals1 = cp_set_values [OF set1 1(3,4)]
      from Cons.IH(1) [OF rest vals1(2) 1(3,4)] absent
      show ?thesis unfolding kv by (auto simp: vals1(1) split: option.splits)
    qed
  next
    case 2
    show ?case
    proof (cases "has_option c section k")
      case True
      then have "ensure_options c section opts = Inr c'"
        using 2(1) kv by simp
      from Cons.IH(2) [OF this 2(2-4)] show ?thesis .
    next
      case False
      obtain c1 where set1: "cp_set c section k v = Inr c1"
        and rest: "ensure_options c1 section opts = Inr c'"
        using 2(1) False kv by (auto split: sum.splits)
      note vals1 = cp_set_values [OF set1 2(3,4)]
      from Cons.IH(2) [OF rest vals1(2) 2(3,4)] show ?thesis .
    qed
  }
qed

lemma add_section_values:
  assumes "add_section c section = Inr c'" 
  shows "option_values c' section = option_values c section" and "sections c' section \<noteq> None"
  using assms
  by (auto simp: add_section_def option_values_def split: if_splits option.splits)

lemma ensure_root_result:
  assumes "ensure_root os cm1 = Inr (cm, os')"
  shows "files os' = files os"
    and "config cm = config cm1
         \<or> cp_set (config cm1) ''general'' ''root_path'' (abspath os (cwd os)) = Inr (config cm)"
  using assms
  by (auto simp: ensure_root_def makedirs_def Let_def split: sum.splits pyval.splits if_splits)

lemma interpolate_some_error:
  "interpolate_some depth m rest = Inl e \<Longrightarrow> e = InterpolationError"
proof (induction depth m rest arbitrary: e rule: interpolate_some.induct)
  case (1 depth m rest)
  show ?case
  proof (cases "depth > MAX_INTERPOLATION_DEPTH")
    case True
    with "1.prems" show ?thesis by (simp add: interpolate_some.simps)
  next
    case False
    note small = this
    show ?thesis
    proof (cases rest)
      case Nil
      with "1.prems" small show ?thesis by (simp add: interpolate_some.simps)
    next
      case (Cons c cs)
      show ?thesis
        using "1.prems" "1.IH" small Cons
        by (subst (asm) interpolate_some.simps)
          (auto split: if_splits sum.splits option.splits prod.splits)
    qed
  qed
qed

lemma ensure_root_exact:
  assumes root: "ensure_root os cm1 = Inr (cm, os')"
    and sec: "sections (config cm1) ''general'' \<noteq> None"
    and raw: "option_values (config cm1) ''general'' ''root_path'' = Some raw"
  shows "\<exists>p. before_get (option_values (config cm1) ''general'') raw = Inr p
           \<and> (if p \<in> dirs os \<or> creatable os p
               then config cm = config cm1 \<and> dirs os' = insert p (dirs os)
               else cp_set (config cm1) ''general'' ''root_path'' (abspath os (cwd os)) = Inr (config cm)
                    \<and> dirs os' = insert (abspath os (cwd os)) (dirs os))"
proof -
  obtain sectdict where sd: "sections (config cm1) ''general'' = Some sectdict"
    using sec by auto
  have vals: "option_values (config cm1) ''general'' = defaults (config cm1) ++ sectdict"
    by (simp add: option_values_def sd)
  have look: "cp_get (config cm1) ''general'' ''root_path''
      = before_get (option_values (config cm1) ''general'') raw"
    using raw by (simp add: cp_get_def unify_values_def sd vals optionxform_keys)
  show ?thesis
  proof (cases "before_get (option_values (config cm1) ''general'') raw")
    case (Inl e)
    then have "e = InterpolationError"
      by (simp add: before_get_def interpolate_some_error)
    with Inl look root show ?thesis
      by (simp add: ensure_root_def FTPConfigManager_get_def typed_lookup_def)
  next
    case (Inr p)
    with look have got: "FTPConfigManager_get os cm1 ''general'' ''root_path'' = Inr (PStr p)"
      by (simp add: FTPConfigManager_get_def typed_lookup_def)
    show ?thesis
      using root Inr
      by (auto simp: ensure_root_def got makedirs_def Let_def insert_absorb
          split: sum.splits if_splits)
  qed
qed

lemma general_defaults_keys:
  "map_of (map (\<lambda>(k, v). (optionxform k, v)) (the (map_of (DEFAULT_CONFIG os) ''general'')))
     = general_defaults os"
  by (simp add: general_defaults_def DEFAULT_CONFIG_def optionxform_keys)

lemma recognized_keys_defaults:
  "key \<in> set recognized_keys \<Longrightarrow> general_defaults os key \<noteq> None \<and> optionxform key = key"
  by (auto simp: recognized_keys_def general_defaults_def DEFAULT_CONFIG_def optionxform_keys)

lemma general_not_default: "''general'' \<noteq> []" "''general'' \<noteq> default_section"
  by (simp_all add: default_section_def)

lemma ensure_sections_single:
  assumes "ensure_sections c [(section, opts)] = Inr c3"
  obtains c1 where
    "(if \<not> has_section c section then add_section c section else Inr c) = Inr c1"
    and "ensure_options c1 section opts = Inr c3"
  using assms by (cases "if \<not> has_section c section then add_section c section else Inr c")
    (auto split: sum.splits)

lemma DEFAULT_CONFIG_single:
  "DEFAULT_CONFIG os = [(''general'', the (map_of (DEFAULT_CONFIG os) ''general''))]"
  by (simp add: DEFAULT_CONFIG_def)

text \<open>
  Claim C6, as amended. When the file exists and \<^verbatim>\<open>load_config\<close> completes on a fresh
  parser, the file is as it was, and the parser (not the file) has every recognized option:
  an option the file has, in the section or in \<^verbatim>\<open>DEFAULT\<close>, keeps the file's value, and
  an option the file lacks has the default of \<^verbatim>\<open>DEFAULT_CONFIG\<close>. This holds of the root
  path too exactly when its directory, the interpolated value that \<^verbatim>\<open>get\<close> returns, exists
  or can be made, and that directory then exists; when it cannot be made, and only then,
  the root path is the working directory, which then exists.
\<close>

theorem load_config_repairs_in_memory:
  assumes cfile: "files os (config_path cm0) = Some (IniFile f)"
    and fresh: "config cm0 = ConfigParser"
    and load: "load_config os cm0 = Inr (cm, os')"
  shows "let repaired = (\<lambda>key. case option_values f ''general'' key of
                                  Some v \<Rightarrow> Some v
                                | None \<Rightarrow> general_defaults os key)
         in \<exists>raw p.
              files os' = files os
            \<and> (\<forall>key \<in> set recognized_keys. has_option (config cm) ''general'' key)
            \<and> (\<forall>key. key \<noteq> ''root_path'' \<longrightarrow>
                  option_values (config cm) ''general'' key = repaired key)
            \<and> repaired ''root_path'' = Some raw
            \<and> before_get repaired raw = Inr p
            \<and> option_values (config cm) ''general'' ''root_path'' =
                 Some (if p \<in> dirs os \<or> creatable os p then raw else abspath os (cwd os))
            \<and> dirs os' =
                 insert (if p \<in> dirs os \<or> creatable os p then p else abspath os (cwd os)) (dirs os)"
proof -
  define repaired where "repaired = (\<lambda>key. case option_values f ''general'' key of
                           Some v \<Rightarrow> Some v | None \<Rightarrow> general_defaults os key)"
  obtain c3 where ens: "ensure_sections f (DEFAULT_CONFIG os) = Inr c3"
    and root: "ensure_root os (cm0\<lparr>config := c3\<rparr>) = Inr (cm, os')"
    using load cfile fresh
    by (auto simp: load_config_def path_exists_def read_config_def read_merge_fresh
        split: sum.splits)
  obtain c1 where c1: "(if \<not> has_section f ''general'' then add_section f ''general'' else Inr f) = Inr c1"
    and opts: "ensure_options c1 ''general'' (the (map_of (DEFAULT_CONFIG os) ''general'')) = Inr c3"
    using ens by (subst (asm) DEFAULT_CONFIG_single) (erule ensure_sections_single)
  have c1_vals: "option_values c1 ''general'' = option_values f ''general''"
    and c1_sec: "sections c1 ''general'' \<noteq> None"
    using c1 add_section_values [of f "''general''" c1]
    by (auto simp: has_section_def split: if_splits)
  have "option_values c3 ''general'' key = repaired key" for key
    using ensure_options_values(1) [OF opts c1_sec general_not_default, of key]
    by (simp add: c1_vals general_defaults_keys repaired_def split: option.splits)
  then have c3_vals: "option_values c3 ''general'' = repaired"
    by (rule ext)
  have c3_sec: "sections c3 ''general'' \<noteq> None"
    using ensure_options_values(2) [OF opts c1_sec general_not_default] .
  have "repaired ''root_path'' \<noteq> None"
    using recognized_keys_defaults [of "''root_path''" os]
    by (simp add: repaired_def recognized_keys_def split: option.splits)
  then obtain raw where raw: "repaired ''root_path'' = Some raw"
    by blast
  have same_files: "files os' = files os"
    by (rule ensure_root_result(1) [OF root])
  have "sections (config (cm0\<lparr>config := c3\<rparr>)) ''general'' \<noteq> None"
    and "option_values (config (cm0\<lparr>config := c3\<rparr>)) ''general'' ''root_path'' = Some raw"
    using c3_sec raw by (simp_all add: c3_vals)
  from ensure_root_exact [OF root this]
  obtain p where p: "before_get repaired raw = Inr p"
    and res: "if p \<in> dirs os \<or> creatable os p
              then config cm = c3 \<and> dirs os' = insert p (dirs os)
              else cp_set c3 ''general'' ''root_path'' (abspath os (cwd os)) = Inr (config cm)
                   \<and> dirs os' = insert (abspath os (cwd os)) (dirs os)"
    by (auto simp: c3_vals cong: if_cong)
  let ?ok = "p \<in> dirs os \<or> creatable os p"
  have vals: "option_values (config cm) ''general'' =
      (if ?ok then repaired else repaired(''root_path'' \<mapsto> abspath os (cwd os)))"
  proof (cases ?ok)
    case True
    with res c3_vals show ?thesis by simp
  next
    case False
    with res have "cp_set c3 ''general'' ''root_path'' (abspath os (cwd os)) = Inr (config cm)"
      by simp
    from cp_set_values(1) [OF this general_not_default] False c3_vals
    show ?thesis by (simp add: optionxform_keys)
  qed
  have sec: "sections (config cm) ''general'' \<noteq> None"
  proof (cases ?ok)
    case True
    with res c3_sec show ?thesis by simp
  next
    case False
    with res have "cp_set c3 ''general'' ''root_path'' (abspath os (cwd os)) = Inr (config cm)"
      by simp
    from cp_set_values(2) [OF this general_not_default] show ?thesis .
  qed
  have known: "repaired key \<noteq> None" if "key \<in> set recognized_keys" for key
    using recognized_keys_defaults [OF that, of os]
    by (auto simp: repaired_def split: option.splits)
  have "has_option (config cm) ''general'' key" if "key \<in> set recognized_keys" for key
    using recognized_keys_defaults [OF that, of os] known [OF that]
    by (simp add: has_option_values [OF sec general_not_default] vals)
  moreover have "option_values (config cm) ''general'' key = repaired key"
    if "key \<noteq> ''root_path''" for key
    using that by (simp add: vals)
  moreover have "option_values (config cm) ''general'' ''root_path'' =
      Some (if ?ok then raw else abspath os (cwd os))"
    using raw by (simp add: vals)
  moreover have "dirs os' = insert (if ?ok then p else abspath os (cwd os)) (dirs os)"
    using res by (simp split: if_splits)
  ultimately show ?thesis
    unfolding Let_def repaired_def [symmetric]
    using same_files raw p by blast
qed

theorem load_config_repairs_in_memory_witness:
  "case FTPConfigManager_init partial_os ''config.ini'' of
     Inl e \<Rightarrow> False
   | Inr (cm, os') \<Rightarrow>
       files os' = files partial_os
       \<and> list_all (has_option (config cm) ''general'') recognized_keys
       \<and> option_values (config cm) ''general'' ''port'' = Some ''2121''
       \<and> option_values (config cm) ''general'' ''timeout'' = Some ''300''
       \<and> option_values (config cm) ''general'' ''root_path'' = Some ''/data''
       \<and> dirs os' = {''/data'', ''/srv''}"
proof -
  obtain cm os' where init: "FTPConfigManager_init partial_os ''config.ini'' = Inr (cm, os')"
    by (simp add: partial_os_def partial_file_def config_eval value_eval
      read_merge_fresh [unfolded ConfigParser_def])
  have load: "load_config partial_os \<lparr>config_path = ''/srv/config.ini'', config = ConfigParser\<rparr>
      = Inr (cm, os')"
    using init by (simp add: FTPConfigManager_init_def partial_os_def example_os_def
      posix_abspath_def posix_normpath_def posix_join_def)
  have cfile: "files partial_os (config_path \<lparr>config_path = ''/srv/config.ini'', config = ConfigParser\<rparr>)
      = Some (IniFile partial_file)"
    by (simp add: partial_os_def)
  have from_file: "option_values partial_file ''general'' ''root_path'' = Some ''/data''"
    by (simp add: option_values_def partial_file_def)
  have can: "creatable partial_os p" "dirs partial_os = {''/srv''}" for p
    by (simp_all add: partial_os_def example_os_def)
  from load_config_repairs_in_memory [OF cfile _ load, unfolded Let_def]
  obtain raw p where "files os' = files partial_os"
    and "\<forall>key \<in> set recognized_keys. has_option (config cm) ''general'' key"
    and others: "\<forall>key. key \<noteq> ''root_path'' \<longrightarrow>
           option_values (config cm) ''general'' key =
             (case option_values partial_file ''general'' key of
                Some v \<Rightarrow> Some v
              | None \<Rightarrow> general_defaults partial_os key)"
    and raw: "raw = ''/data''"
    and p: "before_get (\<lambda>key. case option_values partial_file ''general'' key of
                Some v \<Rightarrow> Some v
              | None \<Rightarrow> general_defaults partial_os key) raw = Inr p"
    and "option_values (config cm) ''general'' ''root_path'' = Some raw"
    and "dirs os' = {p, ''/srv''}"
    by (auto simp: from_file can)
  moreover from raw p have "p = ''/data''"
    by (simp add: before_get_plain)
  moreover from others
  have "option_values (config cm) ''general'' ''port'' = Some ''2121''"
    "option_values (config cm) ''general'' ''timeout'' = Some ''300''"
    by (simp_all add: option_values_def partial_file_def general_defaults_def DEFAULT_CONFIG_def)
  ultimately show ?thesis
    using init by (simp add: list_all_iff)
qed

text \<open>
  Claim C3 as stated fails: a valid configuration whose root path is the absolute path
  \<^verbatim>\<open>/srv/ftp/\<close> is saved with success, and after loading \<^verbatim>\<open>get\<close> returns the normalised
  path \<^verbatim>\<open>/srv/ftp\<close>, not the value that was saved.
\<close>

theorem roundtrip_root_path_differs:
  "case FTPConfigManager_init example_os ''config.ini'' of
     Inl e \<Rightarrow> False
   | Inr (cm, os1) \<Rightarrow>
       (case save os1 cm example_settings of
          (ok, cm2, os2) \<Rightarrow>
            ok \<and> (case FTPConfigManager_init os2 ''config.ini'' of
                    Inl e \<Rightarrow> False
                  | Inr (cm3, os3) \<Rightarrow>
                      FTPConfigManager_get os3 cm3 ''general'' ''root_path'' = Inr (PStr ''/srv/ftp'')
                      \<and> FTPConfigManager_get os3 cm3 ''general'' ''root_path'' \<noteq> Inr (PStr ''/srv/ftp/'')))"
  by (simp add: example_settings_def config_eval value_eval save_eval read_merge_fresh [unfolded ConfigParser_def])

lemma items_plain:
  "e \<in> set encoding_items \<Longrightarrow> CHR ''%'' \<notin> set e"
  "l \<in> set log_level_items \<Longrightarrow> CHR ''%'' \<notin> set l"
  by (auto simp: encoding_items_def log_level_items_def)

lemma cp_get_section:
  assumes "sections c section = Some sectdict" and "sectdict (optionxform key) = Some v"
    and "CHR ''%'' \<notin> set v"
  shows "cp_get c section key = Inr v"
  using assms by (simp add: cp_get_def unify_values_def before_get_plain)

text \<open>
  Claim C3, as amended. Take a configuration with a port in 1..65535, any maximum of
  connections and timeout, an encoding and a log level the program offers, and a root
  path whose absolute form is or can be made a directory, saved on a manager that has the
  \<^verbatim>\<open>general\<close> section and a writable file. Then \<^verbatim>\<open>save\<close> returns \<^verbatim>\<open>True\<close>, and after
  loading the file into a new parser \<^verbatim>\<open>get\<close> returns the saved value for every option but
  the root path, for which it returns \<^verbatim>\<open>os.path.abspath\<close> of the saved value. The file is
  assumed to read back as written, which needs the absolute path to be free of percent
  signs.
\<close>

theorem save_load_roundtrip:
  assumes settings: "settings =
      [(''general'',
        [(''port'', PInt p), (''max_connections'', PInt m), (''timeout'', PInt t),
         (''encoding'', PStr e), (''log_level'', PStr l), (''save_log'', PBool b),
         (''root_path'', PStr r)])]"
    and port: "1 \<le> p" "p \<le> 65535"
    and enc: "e \<in> set encoding_items" and lvl: "l \<in> set log_level_items"
    and root: "isdir os (abspath os r) \<or> creatable os (abspath os r)"
    and plain: "CHR ''%'' \<notin> set (abspath os r)"
    and sec: "has_section (config cm) ''general''"
    and wr: "writable os (config_path cm)"
    and saved: "save os cm settings = (ok, cm1, os1)"
    and verbatim: "reread os (config cm1) = IniFile (config cm1)"
    and loaded: "load_config os1 \<lparr>config_path = config_path cm1, config = ConfigParser\<rparr> = res"
  shows "ok \<and> (\<exists>cm2 os2. res = Inr (cm2, os2)
      \<and> FTPConfigManager_get os2 cm2 ''general'' ''port'' = Inr (PInt p)
      \<and> FTPConfigManager_get os2 cm2 ''general'' ''max_connections'' = Inr (PInt m)
      \<and> FTPConfigManager_get os2 cm2 ''general'' ''timeout'' = Inr (PInt t)
      \<and> FTPConfigManager_get os2 cm2 ''general'' ''encoding'' = Inr (PStr e)
      \<and> FTPConfigManager_get os2 cm2 ''general'' ''log_level'' = Inr (PStr l)
      \<and> FTPConfigManager_get os2 cm2 ''general'' ''save_log'' = Inr (PBool b)
      \<and> FTPConfigManager_get os2 cm2 ''general'' ''root_path'' = Inr (PStr (abspath os r)))"
proof -
  obtain sd where sd: "sections (config cm) ''general'' = Some sd"
    using sec by (auto simp: has_section_def)
  define opts where "opts = sd(''port'' \<mapsto> str_int p, ''max_connections'' \<mapsto> str_int m,
       ''timeout'' \<mapsto> str_int t, ''encoding'' \<mapsto> e, ''log_level'' \<mapsto> l,
       ''save_log'' \<mapsto> (if b then ''True'' else ''False''), ''root_path'' \<mapsto> abspath os r)"
  define c1 where "c1 = (config cm)\<lparr>sections := (sections (config cm))(''general'' \<mapsto> opts)\<rparr>"
  note plains = percent_notin_str_int items_plain(1) [OF enc] items_plain(2) [OF lvl] plain
  have loops: "save_sections os (config cm) settings = (c1, None)"
    unfolding settings c1_def opts_def
    by (simp add: cp_set_plain plains optionxform_keys default_section_def sd)
  have c1_sec: "sections c1 ''general'' = Some opts"
    by (simp add: c1_def)
  have get_port: "cp_get c1 ''general'' ''port'' = Inr (str_int p)"
    and get_mc: "cp_get c1 ''general'' ''max_connections'' = Inr (str_int m)"
    and get_tm: "cp_get c1 ''general'' ''timeout'' = Inr (str_int t)"
    and get_enc: "cp_get c1 ''general'' ''encoding'' = Inr e"
    and get_lvl: "cp_get c1 ''general'' ''log_level'' = Inr l"
    and get_log: "cp_get c1 ''general'' ''save_log'' = Inr (if b then ''True'' else ''False'')"
    and get_root: "cp_get c1 ''general'' ''root_path'' = Inr (abspath os r)"
    by (rule cp_get_section [OF c1_sec]; simp add: opts_def optionxform_keys plains)+
  define os' where "os' = (if isdir os (abspath os r) then os
                           else os\<lparr>dirs := insert (abspath os r) (dirs os)\<rparr>)"
  define os1' where "os1' = os'\<lparr>files := (files os')(config_path cm \<mapsto> reread os c1)\<rparr>"
  have written: "validate_and_write os (config_path cm) c1 = (os1', None)"
    using port root wr
    by (auto simp: validate_and_write_def getint_def get_port get_root py_int_str_int
        makedirs_def isdir_def write_config_def os'_def os1'_def)
  have result: "ok" "cm1 = cm\<lparr>config := c1\<rparr>" "os1 = os1'"
    using saved by (simp_all add: save_def loops written)
  have cfile: "files os1 (config_path cm1) = Some (IniFile c1)"
    using verbatim by (simp add: result os1'_def)
  have fixed: "abspath os1 = abspath os" "cwd os1 = cwd os"
    by (simp_all add: result os1'_def os'_def)
  have root_dir: "abspath os r \<in> dirs os1"
    using root by (auto simp: result os1'_def os'_def isdir_def)
  have ensured: "ensure_sections c1 (DEFAULT_CONFIG os1) = Inr c1"
    by (simp add: DEFAULT_CONFIG_def has_section_def has_option_def c1_sec opts_def
        optionxform_keys default_section_def)
  let ?cm2 = "\<lparr>config_path = config_path cm1, config = c1\<rparr>"
  have typed:
    "FTPConfigManager_get os1 ?cm2 ''general'' ''port'' = Inr (PInt p)"
    "FTPConfigManager_get os1 ?cm2 ''general'' ''max_connections'' = Inr (PInt m)"
    "FTPConfigManager_get os1 ?cm2 ''general'' ''timeout'' = Inr (PInt t)"
    "FTPConfigManager_get os1 ?cm2 ''general'' ''encoding'' = Inr (PStr e)"
    "FTPConfigManager_get os1 ?cm2 ''general'' ''log_level'' = Inr (PStr l)"
    "FTPConfigManager_get os1 ?cm2 ''general'' ''save_log'' = Inr (PBool b)"
    "FTPConfigManager_get os1 ?cm2 ''general'' ''root_path'' = Inr (PStr (abspath os r))"
    by (simp_all add: FTPConfigManager_get_def typed_lookup_def getint_def getboolean_def
        get_port get_mc get_tm get_enc get_lvl get_log get_root py_int_str_int
        BOOLEAN_STATES_def lower_def lower_char_def)
  have rooted: "ensure_root os1 ?cm2 = Inr (?cm2, os1)"
    using root_dir by (simp add: ensure_root_def typed makedirs_def)
  have "res = Inr (?cm2, os1)"
    using loaded cfile
    by (simp add: load_config_def path_exists_def read_config_def read_merge_fresh
        ensured rooted)
  with typed result(1) show ?thesis by simp
qed

theorem save_load_roundtrip_witness:
  "case save loaded_os example_manager example_settings of
     (ok, cm1, os1) \<Rightarrow>
       ok \<and> (case load_config os1 \<lparr>config_path = config_path cm1, config = ConfigParser\<rparr> of
               Inl e \<Rightarrow> False
             | Inr (cm2, os2) \<Rightarrow>
                 FTPConfigManager_get os2 cm2 ''general'' ''port'' = Inr (PInt 2121)
                 \<and> FTPConfigManager_get os2 cm2 ''general'' ''save_log'' = Inr (PBool True)
                 \<and> FTPConfigManager_get os2 cm2 ''general'' ''root_path'' = Inr (PStr ''/srv/ftp''))"
proof -
  obtain ok cm1 os1 where saved: "save loaded_os example_manager example_settings = (ok, cm1, os1)"
    by (cases "save loaded_os example_manager example_settings")
  have path: "abspath loaded_os ''/srv/ftp/'' = ''/srv/ftp''"
    by (simp add: loaded_os_def example_os_def posix_abspath_def posix_normpath_def posix_join_def)
  have "ok \<and> (\<exists>cm2 os2.
      load_config os1 \<lparr>config_path = config_path cm1, config = ConfigParser\<rparr> = Inr (cm2, os2)
      \<and> FTPConfigManager_get os2 cm2 ''general'' ''port'' = Inr (PInt 2121)
      \<and> FTPConfigManager_get os2 cm2 ''general'' ''max_connections'' = Inr (PInt 10)
      \<and> FTPConfigManager_get os2 cm2 ''general'' ''timeout'' = Inr (PInt 60)
      \<and> FTPConfigManager_get os2 cm2 ''general'' ''encoding'' = Inr (PStr ''utf-8'')
      \<and> FTPConfigManager_get os2 cm2 ''general'' ''log_level'' = Inr (PStr ''DEBUG'')
      \<and> FTPConfigManager_get os2 cm2 ''general'' ''save_log'' = Inr (PBool True)
      \<and> FTPConfigManager_get os2 cm2 ''general'' ''root_path''
          = Inr (PStr (abspath loaded_os ''/srv/ftp/'')))"
  proof (rule save_load_roundtrip [OF _ _ _ _ _ _ _ _ _ saved])
    show "example_settings =
      [(''general'',
        [(''port'', PInt 2121), (''max_connections'', PInt 10), (''timeout'', PInt 60),
         (''encoding'', PStr ''utf-8''), (''log_level'', PStr ''DEBUG''),
         (''save_log'', PBool True), (''root_path'', PStr ''/srv/ftp/'')])]"
      by (simp add: example_settings_def)
    show "(1::int) \<le> 2121" "(2121::int) \<le> 65535" by simp_all
    show "''utf-8'' \<in> set encoding_items" by (simp add: encoding_items_def)
    show "''DEBUG'' \<in> set log_level_items" by (simp add: log_level_items_def)
    show "isdir loaded_os (abspath loaded_os ''/srv/ftp/'')
        \<or> creatable loaded_os (abspath loaded_os ''/srv/ftp/'')"
      by (simp add: loaded_os_def example_os_def)
    show "CHR ''%'' \<notin> set (abspath loaded_os ''/srv/ftp/'')"
      by (simp add: path)
    show "has_section (config example_manager) ''general''"
      by (simp add: has_section_def example_manager_def)
    show "writable loaded_os (config_path example_manager)"
      by (simp add: loaded_os_def example_os_def)
    show "reread loaded_os (config cm1) = IniFile (config cm1)"
      by (simp add: loaded_os_def example_os_def)
  qed simp
  then show ?thesis
    by (auto simp: saved path)
qed

section \<open>Properties of the codecs\<close>

lemma decode_with_replace_total: "\<exists>t. decode_with cd Replace bs = Inr t"
proof (induction "length bs" arbitrary: bs rule: less_induct)
  case less
  show ?case
  proof (cases "bs = []")
    case True
    then show ?thesis by (subst decode_with.simps) simp
  next
    case False
    obtain r k where step: "decode_step cd bs = (r, k)" by (cases "decode_step cd bs")
    have "length (drop (Suc k) bs) < length bs" using False by simp
    then obtain t where t: "decode_with cd Replace (drop (Suc k) bs) = Inr t"
      using less by blast
    show ?thesis
      using False step t by (subst decode_with.simps) (cases r; simp)
  qed
qed

lemma py_decode_replace_no_unicode_error:
  "py_decode reg enc Replace bs \<noteq> Inl UnicodeDecodeError"
proof (cases "reg enc")
  case None
  then show ?thesis by (simp add: py_decode_def)
next
  case (Some cd)
  obtain t where "decode_with cd Replace bs = Inr t"
    using decode_with_replace_total by blast
  with Some show ?thesis by (simp add: py_decode_def)
qed

lemma encode_with_errors: "encode_with cd er t = Inl e \<Longrightarrow> e = UnicodeEncodeError"
  by (induction t) (auto split: option.splits sum.splits errors.splits)

lemma encode_with_replace_total:
  "encode_char cd 63 \<noteq> None \<Longrightarrow> \<exists>b. encode_with cd Replace t = Inr b"
  by (induction t) (auto split: option.splits sum.splits)

lemma latin1_question: "encode_char latin1 63 \<noteq> None"
  by (simp add: latin1_def)

section \<open>The handler's codec methods\<close>

text \<open>
  Claim C10. In \<^verbatim>\<open>decode\<close> the handler's error policy is \<^verbatim>\<open>'replace'\<close>, so the first
  call \<^verbatim>\<open>bytes.decode(self.encoding, errors=self.unicode_errors)\<close> never raises
  \<^verbatim>\<open>UnicodeDecodeError\<close>, whatever the bytes and the codec: the \<^verbatim>\<open>latin1\<close> branch is never
  taken and \<^verbatim>\<open>decode\<close> returns what the first call returns, the decoding in the handler's
  encoding with U+FFFD in place of malformed bytes.
\<close>

theorem decode_fallback_unreachable:
  assumes "unicode_errors self = Replace" and "encoding self = PStr enc"
  shows "py_decode reg enc (unicode_errors self) bs \<noteq> Inl UnicodeDecodeError
         \<and> decode reg self bs = py_decode reg enc Replace bs"
proof -
  have "py_decode reg enc Replace bs \<noteq> Inl UnicodeDecodeError"
    by (rule py_decode_replace_no_unicode_error)
  then show ?thesis
    using assms by (cases "py_decode reg enc Replace bs") (auto simp: decode_def split: py_exc.splits)
qed

theorem decode_fallback_unreachable_witness:
  "py_decode example_registry ''gb18030''
       (unicode_errors (WindowsFTPHandler_init example_class)) [CHR 0xE4, CHR ''a'']
     \<noteq> Inl UnicodeDecodeError
   \<and> decode example_registry (WindowsFTPHandler_init example_class) [CHR 0xE4, CHR ''a'']
     = py_decode example_registry ''gb18030'' Replace [CHR 0xE4, CHR ''a'']"
  using decode_fallback_unreachable [of "WindowsFTPHandler_init example_class" "''gb18030''"
      example_registry "[CHR 0xE4, CHR ''a'']"]
  by (simp add: WindowsFTPHandler_init_def)

text \<open>
  Claim C7. On a handler made by \<^verbatim>\<open>__init__\<close>, \<^verbatim>\<open>decode\<close> returns a text for every byte
  sequence, also one that is malformed in the handler's encoding, and \<^verbatim>\<open>encode\<close> returns
  bytes for every text; neither raises. \<^verbatim>\<open>encode\<close> falls back to \<^verbatim>\<open>latin1\<close> when the first
  attempt raises \<^verbatim>\<open>UnicodeEncodeError\<close>. The two codecs the methods name are assumed to be
  registered, as they are in every Python installation.
\<close>

theorem decode_encode_total:
  assumes "reg ''gb18030'' = Some cd" and "reg ''latin1'' = Some latin1"
  shows "(\<exists>t. decode reg (WindowsFTPHandler_init cls) bs = Inr t)
         \<and> (\<exists>b. encode reg (WindowsFTPHandler_init cls) s = Inr b)"
proof
  obtain t where "decode_with cd Replace bs = Inr t"
    using decode_with_replace_total by blast
  then show "\<exists>t. decode reg (WindowsFTPHandler_init cls) bs = Inr t"
    using assms by (simp add: decode_def WindowsFTPHandler_init_def py_decode_def)
next
  obtain b where b: "encode_with latin1 Replace s = Inr b"
    using encode_with_replace_total [OF latin1_question] by blast
  show "\<exists>b. encode reg (WindowsFTPHandler_init cls) s = Inr b"
  proof (cases "encode_with cd Replace s")
    case (Inl e)
    then have "e = UnicodeEncodeError" by (rule encode_with_errors)
    with Inl b assms show ?thesis
      by (simp add: encode_def WindowsFTPHandler_init_def py_encode_def)
  next
    case (Inr b')
    with assms show ?thesis
      by (simp add: encode_def WindowsFTPHandler_init_def py_encode_def)
  qed
qed

theorem decode_encode_total_witness:
  "(\<exists>t. decode example_registry (WindowsFTPHandler_init example_class) [CHR 0xE4, CHR ''a''] = Inr t)
   \<and> (\<exists>b. encode example_registry (WindowsFTPHandler_init example_class) [20013, 97] = Inr b)"
  using decode_encode_total [of example_registry ascii example_class "[CHR 0xE4, CHR ''a'']" "[20013, 97]"]
  by (simp add: example_registry_def)

section \<open>The main window\<close>

subsection \<open>What the helpers leave unchanged\<close>

lemma update_tray_menu_frame [simp]:
  "threads (update_tray_menu w) = threads w"
  "server_thread (update_tray_menu w) = server_thread w"
  "manager (update_tray_menu w) = manager w"
  "handler_cls (update_tray_menu w) = handler_cls w"
  "logger_level (update_tray_menu w) = logger_level w"
  "emitted (update_tray_menu w) = emitted w"
  "ui_running (update_tray_menu w) = ui_running w"
  "tray_running (update_tray_menu w) = thread_isRunning w"
  by (simp_all add: update_tray_menu_def)

lemma thread_isRunning_cong:
  "threads w' = threads w \<Longrightarrow> server_thread w' = server_thread w \<Longrightarrow>
   thread_isRunning w' = thread_isRunning w"
  by (simp add: thread_isRunning_def split: option.splits)

lemma update_ui_state_frame [simp]:
  "threads (update_ui_state b w) = threads w"
  "server_thread (update_ui_state b w) = server_thread w"
  "manager (update_ui_state b w) = manager w"
  "handler_cls (update_ui_state b w) = handler_cls w"
  "logger_level (update_ui_state b w) = logger_level w"
  "emitted (update_ui_state b w) = emitted w"
  "ui_running (update_ui_state b w) = b"
  "tray_running (update_ui_state b w) = thread_isRunning w"
  by (simp_all add: update_ui_state_def thread_isRunning_def split: option.splits)

lemma emit_frame [simp]:
  "threads (emit sg w) = threads w"
  "server_thread (emit sg w) = server_thread w"
  "manager (emit sg w) = manager w"
  "handler_cls (emit sg w) = handler_cls w"
  "logger_level (emit sg w) = logger_level w"
  "emitted (emit sg w) = emitted w @ [sg]"
  by (simp_all add: emit_def Let_def split: signal.splits)

lemma emit_ui [simp]:
  "ui_running (emit server_started w) = True"
  "ui_running (emit server_stopped w) = False"
  "ui_running (emit (status_update m) w) = ui_running w"
  "ui_running (emit (log_received l m) w) = ui_running w"
  "ui_running (emit (error_occurred m) w) = ui_running w"
  "tray_running (emit server_started w) = thread_isRunning w"
  "tray_running (emit server_stopped w) = thread_isRunning w"
  "tray_running (emit (status_update m) w) = tray_running w"
  "tray_running (emit (log_received l m) w) = tray_running w"
  "tray_running (emit (error_occurred m) w) = tray_running w"
  by (simp_all add: emit_def Let_def thread_isRunning_def split: option.splits)

lemma logging_log_frame [simp]:
  "threads (logging_log l m w) = threads w"
  "server_thread (logging_log l m w) = server_thread w"
  "manager (logging_log l m w) = manager w"
  "handler_cls (logging_log l m w) = handler_cls w"
  "logger_level (logging_log l m w) = logger_level w"
  "ui_running (logging_log l m w) = ui_running w"
  "tray_running (logging_log l m w) = tray_running w"
  "filter is_error (emitted (logging_log l m w)) = filter is_error (emitted w)"
  by (simp_all add: logging_log_def is_error_def)

lemma emitted_logging_log:
  "emitted (logging_log l m w) =
     emitted w @ (if logger_level w \<le> l then [log_received l m] else [])"
  by (simp add: logging_log_def)

lemma thread_isRunning_simps [simp]:
  "thread_isRunning (update_tray_menu w) = thread_isRunning w"
  "thread_isRunning (update_ui_state b w) = thread_isRunning w"
  "thread_isRunning (emit sg w) = thread_isRunning w"
  "thread_isRunning (logging_log l m w) = thread_isRunning w"
  by (simp_all add: thread_isRunning_def split: option.splits)

subsection \<open>The server threads\<close>

lemma finish_run_frame [simp]:
  "length (threads (finish_run i r w)) = length (threads w)"
  "server_thread (finish_run i r w) = server_thread w"
  "manager (finish_run i r w) = manager w"
  "logger_level (finish_run i r w) = logger_level w"
  "ui_running (finish_run i r w) = ui_running w"
  "tray_running (finish_run i r w) = tray_running w"
  "filter is_error (emitted (finish_run i r w)) = filter is_error (emitted w)"
  by (simp_all add: finish_run_def Let_def split: option.splits)

lemma finish_run_isRunning:
  "j < length (threads w) \<Longrightarrow>
   t_isRunning (threads (finish_run i r w) ! j) = (j \<noteq> i \<and> t_isRunning (threads w ! j))"
  by (cases "i = j") (auto simp: finish_run_def Let_def split: option.splits)

lemma worker_step_frame [simp]:
  "length (threads (worker_step ev w)) = length (threads w)"
  "server_thread (worker_step ev w) = server_thread w"
  "manager (worker_step ev w) = manager w"
  "logger_level (worker_step ev w) = logger_level w"
  "ui_running (worker_step ev w) = ui_running w"
  "tray_running (worker_step ev w) = tray_running w"
  "filter is_error (emitted (worker_step ev w)) = filter is_error (emitted w)"
  by (cases ev; simp split: option.splits)+

lemma worker_step_isRunning:
  "j < length (threads w) \<Longrightarrow> t_isRunning (threads (worker_step ev w) ! j) \<Longrightarrow>
   t_isRunning (threads w ! j)"
proof (cases ev)
  case (Bind i r)
  assume j: "j < length (threads w)" and run: "t_isRunning (threads (worker_step ev w) ! j)"
  show ?thesis
  proof (cases "i < length (threads w) \<and> t_isRunning (threads w ! i) \<and> \<not> t_server (threads w ! i)")
    case True
    show ?thesis
    proof (cases r)
      case None
      with True Bind j run show ?thesis by (cases "i = j") auto
    next
      case (Some e)
      with True Bind j run show ?thesis by (simp add: finish_run_isRunning)
    qed
  next
    case False
    with Bind run show ?thesis by auto
  qed
next
  case (ServeEnd i r)
  assume j: "j < length (threads w)" and run: "t_isRunning (threads (worker_step ev w) ! j)"
  then show ?thesis
    using ServeEnd by (auto simp: finish_run_isRunning split: if_splits)
qed

lemma fold_worker_step_frame [simp]:
  "length (threads (fold worker_step evs w)) = length (threads w)"
  "server_thread (fold worker_step evs w) = server_thread w"
  "manager (fold worker_step evs w) = manager w"
  "logger_level (fold worker_step evs w) = logger_level w"
  "ui_running (fold worker_step evs w) = ui_running w"
  "tray_running (fold worker_step evs w) = tray_running w"
  "filter is_error (emitted (fold worker_step evs w)) = filter is_error (emitted w)"
  by (induction evs arbitrary: w; simp)+

lemma fold_worker_step_isRunning:
  "j < length (threads w) \<Longrightarrow> t_isRunning (threads (fold worker_step evs w) ! j) \<Longrightarrow>
   t_isRunning (threads w ! j)"
proof (induction evs arbitrary: w)
  case Nil
  then show ?case by simp
next
  case (Cons ev evs)
  have "t_isRunning (threads (worker_step ev w) ! j)"
    using Cons.IH [of "worker_step ev w"] Cons.prems by simp
  then show ?case
    using Cons.prems(1) by (rule worker_step_isRunning [rotated])
qed

lemma thread_stop_frame [simp]:
  "length (threads (thread_stop i ce w)) = length (threads w)"
  "server_thread (thread_stop i ce w) = server_thread w"
  "manager (thread_stop i ce w) = manager w"
  "logger_level (thread_stop i ce w) = logger_level w"
  "ui_running (thread_stop i ce w) = ui_running w"
  "tray_running (thread_stop i ce w) = tray_running w"
  "filter is_error (emitted (thread_stop i ce w)) = filter is_error (emitted w)"
  by (simp_all add: thread_stop_def Let_def split: option.splits)

lemma thread_stop_isRunning:
  "j < length (threads w) \<Longrightarrow>
   t_isRunning (threads (thread_stop i ce w) ! j) = t_isRunning (threads w ! j)"
  by (cases "i = j") (auto simp: thread_stop_def Let_def split: option.splits)

subsection \<open>Stopping\<close>

lemma stop_server_frame [simp]:
  "length (threads (stop_server ce during w)) = length (threads w)"
  "server_thread (stop_server ce during w) = server_thread w"
  "manager (stop_server ce during w) = manager w"
  "logger_level (stop_server ce during w) = logger_level w"
  "filter is_error (emitted (stop_server ce during w)) = filter is_error (emitted w)"
  by (simp_all add: stop_server_def Let_def is_error_def split: option.splits)

lemma stop_server_isRunning:
  "j < length (threads w) \<Longrightarrow> t_isRunning (threads (stop_server ce during w) ! j) \<Longrightarrow>
   t_isRunning (threads w ! j)"
  by (auto simp: stop_server_def Let_def thread_stop_isRunning
      dest!: fold_worker_step_isRunning [rotated] split: option.splits)

subsection \<open>Starting\<close>

text \<open>What \<^verbatim>\<open>_start_server\<close> leaves behind when its \<^verbatim>\<open>try\<close> fails, and when it does not.\<close>

lemma start_attempt_failed:
  assumes "start_attempt os w = (w', Some e)"
  shows "threads w' = threads w" "server_thread w' = server_thread w"
    "ui_running w' = ui_running w" "emitted w' = emitted w" "logger_level w' = logger_level w"
    "manager w' = manager w"
  using assms
  by (auto simp: start_attempt_def Let_def split: sum.splits)

lemma start_attempt_started:
  assumes "start_attempt os w = (w', None)"
  shows "\<exists>root tm enc p mc.
           FTPConfigManager_get os (manager w) ''general'' ''root_path'' = Inr (PStr root)
         \<and> isdir os root
         \<and> FTPConfigManager_get os (manager w) ''general'' ''timeout'' = Inr tm
         \<and> FTPConfigManager_get os (manager w) ''general'' ''encoding'' = Inr (PStr enc)
         \<and> FTPConfigManager_get os (manager w) ''general'' ''port'' = Inr p
         \<and> FTPConfigManager_get os (manager w) ''general'' ''max_connections'' = Inr mc
         \<and> handler_cls w' =
             \<lparr>authorizer = [''anonymous'' \<mapsto> \<lparr>homedir = root, perm = ''elradfmwM''\<rparr>],
              timeout = tm, encoding = PStr enc, utf8 = (lower enc = ''utf-8'')\<rparr>
         \<and> threads w' = threads w @
             [\<lparr>t_handler = handler_cls w', t_host = ''0.0.0.0'', t_port = p,
               t_max_connections = mc, t_server = False, t_running = False,
               t_isRunning = True\<rparr>]
         \<and> server_thread w' = Some (length (threads w))
         \<and> ui_running w' \<and> logger_level w' = logger_level w \<and> manager w' = manager w
         \<and> emitted w' = emitted w @ [server_started, status_update (StartedOnPort p)]
               @ (if logger_level w \<le> INFO then [log_received INFO (StartedOnPort p)] else [])"
  using assms
  by (auto simp: start_attempt_def Let_def add_anonymous_def emitted_logging_log
      split: sum.splits pyval.splits if_splits)

subsection \<open>One server thread at a time\<close>

text \<open>The invariant: a thread that is running is the one \<^verbatim>\<open>self.server_thread\<close> refers to.\<close>

lemma filter_at_most_one:
  "(\<And>i j. i < length xs \<Longrightarrow> j < length xs \<Longrightarrow> P (xs ! i) \<Longrightarrow> P (xs ! j) \<Longrightarrow> i = j)
   \<Longrightarrow> length (filter P xs) \<le> 1"
proof (induction xs)
  case Nil
  then show ?case by simp
next
  case (Cons x xs)
  have tail: "length (filter P xs) \<le> 1"
  proof (rule Cons.IH)
    fix i j
    assume "i < length xs" "j < length xs" "P (xs ! i)" "P (xs ! j)"
    then have "Suc i = Suc j"
      using Cons.prems [of "Suc i" "Suc j"] by simp
    then show "i = j" by simp
  qed
  show ?case
  proof (cases "P x")
    case False
    with tail show ?thesis by simp
  next
    case True
    have "\<not> P y" if "y \<in> set xs" for y
    proof
      assume "P y"
      from that obtain k where "k < length xs" "xs ! k = y"
        by (auto simp: in_set_conv_nth)
      with True \<open>P y\<close> have "0 = Suc k"
        using Cons.prems [of 0 "Suc k"] by simp
      then show False by simp
    qed
    then have "filter P xs = []" by (simp add: filter_empty_conv)
    with True show ?thesis by simp
  qed
qed

lemma only_current_runs_active:
  assumes "only_current_runs w"
  shows "length (active_threads w) \<le> 1"
  unfolding active_threads_def
proof (rule filter_at_most_one)
  fix i j
  assume "i < length (threads w)" "j < length (threads w)"
    "t_isRunning (threads w ! i)" "t_isRunning (threads w ! j)"
  with assms have "server_thread w = Some i" and "server_thread w = Some j"
    unfolding only_current_runs_def by blast+
  then show "i = j" by simp
qed

lemma only_current_runs_initial: "only_current_runs (initial_window cm cls level)"
  by (simp add: only_current_runs_def initial_window_def)

lemma only_current_runs_worker_step:
  assumes "only_current_runs w"
  shows "only_current_runs (worker_step ev w)"
  using assms worker_step_isRunning [of _ w ev]
  by (auto simp: only_current_runs_def)

lemma only_current_runs_stop_server:
  assumes "only_current_runs w"
  shows "only_current_runs (stop_server ce during w)"
  using assms stop_server_isRunning [of _ w ce during]
  by (auto simp: only_current_runs_def)

lemma only_current_runs_start_server:
  assumes inv: "only_current_runs w" and idle: "\<not> thread_isRunning w"
  shows "only_current_runs (start_server os w)"
proof -
  have quiet: "\<not> t_isRunning (threads w ! i)" if "i < length (threads w)" for i
  proof
    assume "t_isRunning (threads w ! i)"
    with inv that have "server_thread w = Some i"
      by (simp add: only_current_runs_def)
    with that \<open>t_isRunning (threads w ! i)\<close> have "thread_isRunning w"
      by (simp add: thread_isRunning_def)
    with idle show False by simp
  qed
  obtain w' r where att: "start_attempt os w = (w', r)"
    by (cases "start_attempt os w")
  show ?thesis
  proof (cases r)
    case None
    from start_attempt_started [OF att [unfolded None]]
    obtain th where th: "threads w' = threads w @ [th]"
      and cur: "server_thread w' = Some (length (threads w))"
      by blast
    have "only_current_runs w'"
      unfolding only_current_runs_def
    proof (intro allI impI)
      fix i
      assume "i < length (threads w')" "t_isRunning (threads w' ! i)"
      then have "i = length (threads w)"
        using quiet [of i] th by (cases "i < length (threads w)") (auto simp: nth_append)
      with cur show "server_thread w' = Some i" by simp
    qed
    with att None show ?thesis by (simp add: start_server_def)
  next
    case (Some e)
    from start_attempt_failed [OF att [unfolded Some]] inv
    show ?thesis
      using att Some by (simp add: start_server_def only_current_runs_def)
  qed
qed

lemma only_current_runs_step:
  assumes "only_current_runs w"
  shows "only_current_runs (step os rq w)"
proof (cases rq)
  case (Toggle ce during)
  with assms show ?thesis
    by (simp add: toggle_server_def only_current_runs_stop_server only_current_runs_start_server)
next
  case (Worker ev)
  with assms show ?thesis by (simp add: only_current_runs_worker_step)
qed

lemma only_current_runs_run:
  assumes "only_current_runs w"
  shows "only_current_runs (run os rs w)"
  using assms unfolding run_def
  by (induction rs arbitrary: w) (simp_all add: only_current_runs_step)

text \<open>
  Claim C4, as amended. The start/stop button and the tray action both call
  \<^verbatim>\<open>_toggle_server\<close>, the only caller of \<^verbatim>\<open>_start_server\<close>; it starts a thread only when
  the current one is not running. So after every sequence of such requests, interleaved in
  any way with the events of the server threads, at most one server thread is running.
\<close>

theorem at_most_one_active_thread:
  "length (active_threads (run os rs (initial_window cm cls level))) \<le> 1"
  by (intro only_current_runs_active only_current_runs_run only_current_runs_initial)

lemmas window_eval =
  run_def toggle_server_def start_server_def start_attempt_def stop_server_def
  thread_stop_def finish_run_def thread_isRunning_def add_anonymous_def
  emit_def logging_log_def update_ui_state_def update_tray_menu_def
  initial_window_def example_window_def example_class_def example_manager_def loaded_os_def
  INFO_def ERROR_def is_error_def active_threads_def Let_def

theorem at_most_one_active_thread_witness:
  "length (active_threads
     (run loaded_os [Toggle None [], Worker (Bind 0 None), Toggle None [], Toggle None []]
        (initial_window example_manager example_class INFO))) \<le> 1"
  using at_most_one_active_thread
    [of loaded_os "[Toggle None [], Worker (Bind 0 None), Toggle None [], Toggle None []]"
        example_manager example_class INFO]
  by simp

text \<open>
  Claim C4 as stated fails: a second request while the server runs is not a no-op. Through
  \<^verbatim>\<open>_toggle_server\<close> it stops the server; and \<^verbatim>\<open>_start_server\<close> itself has no guard, so
  called on a running server it makes a second running thread.
\<close>

theorem second_request_not_noop:
  "let w1 = run loaded_os [Toggle None [], Worker (Bind 0 None)] example_window;
       w2 = step loaded_os (Toggle None [ServeEnd 0 None]) w1;
       w3 = start_server loaded_os w1
   in thread_isRunning w1
      \<and> \<not> thread_isRunning w2 \<and> \<not> ui_running w2 \<and> server_stopped \<in> set (emitted w2)
      \<and> length (active_threads w3) = 2"
  by (simp add: window_eval config_eval value_eval)

subsection \<open>Stopping a thread that does not end\<close>

text \<open>
  Whatever the window and the events during the wait: when the thread is still running
  after \<^verbatim>\<open>wait(2000)\<close>, \<^verbatim>\<open>_stop_server\<close> has emitted \<^verbatim>\<open>server_stopped\<close> and the status
  message as after any stop and no \<^verbatim>\<open>error_occurred\<close>; the button and the status label
  show the stopped state, the tray menu shows the running state, and the thread is left
  running, still referred to by \<^verbatim>\<open>self.server_thread\<close>.
\<close>

lemma stop_server_thread_still_running:
  assumes "server_thread w = Some i"
    and "thread_isRunning (stop_server ce during w)"
  shows "\<not> ui_running (stop_server ce during w)
       \<and> tray_running (stop_server ce during w)
       \<and> filter is_error (emitted (stop_server ce during w)) = filter is_error (emitted w)
       \<and> server_stopped \<in> set (emitted (stop_server ce during w))
       \<and> status_update StoppedMessage \<in> set (emitted (stop_server ce during w))
       \<and> i < length (threads (stop_server ce during w))
       \<and> t_isRunning (threads (stop_server ce during w) ! i)"
proof -
  let ?w2 = "fold worker_step during (thread_stop i ce w)"
  have run: "thread_isRunning ?w2"
    using assms by (simp add: stop_server_def Let_def)
  have "\<not> ui_running (stop_server ce during w)"
    using assms(1) by (simp add: stop_server_def Let_def)
  moreover have "tray_running (stop_server ce during w)"
    using assms(1) run by (simp add: stop_server_def Let_def)
  moreover have "server_stopped \<in> set (emitted (stop_server ce during w))"
    "status_update StoppedMessage \<in> set (emitted (stop_server ce during w))"
    using assms(1) by (simp_all add: stop_server_def Let_def emitted_logging_log)
  moreover have "i < length (threads (stop_server ce during w))
      \<and> t_isRunning (threads (stop_server ce during w) ! i)"
    using assms by (simp add: thread_isRunning_def)
  ultimately show ?thesis by simp
qed

text \<open>
  Claim C5, at a stop request on a server started on the default configuration whose
  thread is still running when \<^verbatim>\<open>wait(2000)\<close> returns: the claim says an error event that
  mentions the timeout is emitted and the final state is stopped. In the code the result
  of \<^verbatim>\<open>wait(2000)\<close> is dropped: the signals of the stop are \<^verbatim>\<open>server_stopped\<close>, the status
  message and a log line, as after a stop that succeeded, none is \<^verbatim>\<open>error_occurred\<close>, the
  button shows the stopped state and the tray menu the running state, and the thread
  goes on running. The \<^verbatim>\<open>except\<close> clause of the same method does emit \<^verbatim>\<open>error_occurred\<close>
  when stopping raises.
\<close>

theorem stop_timeout_not_reported:
  "let w1 = run loaded_os [Toggle None [], Worker (Bind 0 None)] example_window;
       w2 = stop_server None [] w1
   in thread_isRunning w1
      \<and> emitted w2 = emitted w1 @
           [server_stopped, status_update StoppedMessage, log_received INFO StoppedMessage]
      \<and> filter is_error (emitted w2) = []
      \<and> thread_isRunning w2
      \<and> length (active_threads w2) = 1
      \<and> \<not> ui_running w2
      \<and> tray_running w2"
  by (simp add: window_eval config_eval value_eval)

subsection \<open>The handler of a started thread\<close>

text \<open>
  Whenever \<^verbatim>\<open>_start_server\<close> makes a thread, the handler class it hands to the thread has
  an authorizer whose anonymous user has the configured root path as home and the
  permissions \<^verbatim>\<open>elradfmwM\<close>, and the class attributes \<^verbatim>\<open>timeout\<close> and \<^verbatim>\<open>encoding\<close> are what
  \<^verbatim>\<open>get\<close> returns for them in the current configuration.
\<close>

lemma start_server_class_attributes:
  assumes "threads (start_server os w) \<noteq> threads w"
  shows "\<exists>root.
           FTPConfigManager_get os (manager w) ''general'' ''root_path'' = Inr (PStr root)
         \<and> authorizer (t_handler (last (threads (start_server os w))))
             = [''anonymous'' \<mapsto> \<lparr>homedir = root, perm = ''elradfmwM''\<rparr>]
         \<and> FTPConfigManager_get os (manager w) ''general'' ''timeout''
             = Inr (timeout (t_handler (last (threads (start_server os w)))))
         \<and> FTPConfigManager_get os (manager w) ''general'' ''encoding''
             = Inr (encoding (t_handler (last (threads (start_server os w)))))
         \<and> threads (start_server os w) = threads w @ [last (threads (start_server os w))]
         \<and> server_thread (start_server os w) = Some (length (threads w))"
proof -
  obtain w' r where att: "start_attempt os w = (w', r)"
    by (cases "start_attempt os w")
  show ?thesis
  proof (cases r)
    case (Some e)
    with att assms start_attempt_failed(1) [of os w w' e] show ?thesis
      by (simp add: start_server_def)
  next
    case None
    have eq: "start_server os w = w'"
      using att None by (simp add: start_server_def)
    from start_attempt_started [OF att [unfolded None]]
    show ?thesis unfolding eq by force
  qed
qed

text \<open>
  The handler objects the server makes from the class, one for each connection, do not
  use the class attributes \<^verbatim>\<open>encoding\<close> and \<^verbatim>\<open>utf8\<close>: \<^verbatim>\<open>__init__\<close> gives each of them the
  encoding \<^verbatim>\<open>gb18030\<close>, whatever the class attribute is.
\<close>

lemma instance_encoding:
  "encoding (WindowsFTPHandler_init cls) = PStr ''gb18030'' \<and> \<not> utf8 (WindowsFTPHandler_init cls)"
  by (simp add: WindowsFTPHandler_init_def)

text \<open>
  Claim C9, at a start request after the example settings were saved, so that the
  configuration stores the encoding \<^verbatim>\<open>utf-8\<close>, the timeout \<^verbatim>\<open>60\<close> and the root path
  \<^verbatim>\<open>/srv/ftp\<close>: the claim says the encoding of the handler equals the encoding stored in
  the configuration. In the code \<^verbatim>\<open>_start_server\<close> sets the class attributes \<^verbatim>\<open>encoding\<close>
  and \<^verbatim>\<open>utf8\<close> from the configuration, but \<^verbatim>\<open>WindowsFTPHandler.__init__\<close> sets the
  attributes of every handler object to \<^verbatim>\<open>gb18030\<close> and \<^verbatim>\<open>False\<close>: the handler that
  serves a connection has the configured authorizer and timeout and the encoding
  \<^verbatim>\<open>gb18030\<close>, not \<^verbatim>\<open>utf-8\<close>.
\<close>

theorem started_handler_ignores_encoding:
  "case save loaded_os example_manager example_settings of
     (ok, cm, os1) \<Rightarrow>
       (let w = start_server os1 (initial_window cm example_class INFO);
            cls = t_handler (last (threads w));
            h = WindowsFTPHandler_init cls
        in ok \<and> length (threads w) = 1 \<and> server_thread w = Some 0
           \<and> option_values (config cm) ''general'' ''encoding'' = Some ''utf-8''
           \<and> option_values (config cm) ''general'' ''timeout'' = Some ''60''
           \<and> option_values (config cm) ''general'' ''root_path'' = Some ''/srv/ftp''
           \<and> FTPConfigManager_get os1 cm ''general'' ''encoding'' = Inr (PStr ''utf-8'')
           \<and> encoding cls = PStr ''utf-8'' \<and> utf8 cls
           \<and> encoding h = PStr ''gb18030'' \<and> \<not> utf8 h
           \<and> encoding h \<noteq> PStr ''utf-8''
           \<and> timeout h = PInt 60
           \<and> authorizer h = [''anonymous'' \<mapsto> \<lparr>homedir = ''/srv/ftp'', perm = ''elradfmwM''\<rparr>])"
  by (simp add: example_settings_def option_values_def WindowsFTPHandler_init_def
      window_eval config_eval value_eval save_eval)

subsection \<open>A server thread that cannot bind\<close>

text \<open>
  Claim C1, at a start on the default configuration whose thread then fails to bind
  (\<^verbatim>\<open>OSError\<close>, the port is in use): the claim says an error event is emitted and the
  state shown goes back to stopped. In the code \<^verbatim>\<open>run\<close> catches the exception and only
  logs it: the signals are \<^verbatim>\<open>server_started\<close>, the status message and two log lines, none
  is \<^verbatim>\<open>error_occurred\<close>, and the window goes on showing the running state although no
  thread runs.
\<close>

theorem bind_failure_not_reported:
  "let w = run loaded_os [Toggle None [], Worker (Bind 0 (Some OSError))] example_window in
     emitted w =
       [server_started, status_update (StartedOnPort (PInt 21)),
        log_received INFO (StartedOnPort (PInt 21)), log_received ERROR (ServerError OSError)]
     \<and> filter is_error (emitted w) = []
     \<and> ui_running w
     \<and> active_threads w = []"
  by (simp add: window_eval config_eval value_eval)

end
